theory Spec2Isabelle
  imports Main "HOL-Library.Multiset" "HOL-Library.Monad_Syntax"
begin

section \<open>Values and errors\<close>

text \<open>
  The program is \<^verbatim>\<open>is_snyk_for.py\<close>. Its core reads two already loaded JSON values (a
  commit and a report) and answers with a boolean. Python values that come out of
  \<^verbatim>\<open>json.loads\<close> are modelled by the datatype \<open>json\<close>: \<^verbatim>\<open>None\<close>, booleans, integers,
  strings, lists and dicts. A dict is the list of its items in insertion order; a key is
  looked up with \<open>map_of\<close>. JSON numbers with a fraction or an exponent (Python floats) are
  not part of the model. Python's \<^verbatim>\<open>int\<close> is \<open>int\<close>, a \<^verbatim>\<open>str\<close> is a \<open>string\<close>: the list
  of its characters, which the program only compares with \<^verbatim>\<open>@\<close>, the newline character,
  the digits and the other characters of its pattern.
\<close>

datatype json =
    JNull
  | JBool bool
  | JInt int
  | JStr string
  | JArr "json list"
  | JObj "(string \<times> json) list"

text \<open>
  The exceptions the core can raise: on a value of the wrong shape, and from \<^verbatim>\<open>int\<close> on a
  string of too many digits.
\<close>

datatype error = KeyError string | TypeError | ValueError

section \<open>PatchBlocks\<close>

subsection \<open>The compiled pattern \<^verbatim>\<open>_MATCH_PROG\<close>\<close>

text \<open>
  \<^verbatim>\<open>_MATCH_PROG = re.compile('@@ -[0-9]+,[0-9]+ \+([0-9]+),([0-9]+) @@')\<close>

  \<^verbatim>\<open>_MATCH_PROG.match(block)\<close> matches the pattern against a prefix of \<open>block\<close>. Every
  \<^verbatim>\<open>[0-9]+\<close> is followed in the pattern by a character that is not a digit, so the greedy
  repetition takes the longest run of digits and backtracking can never succeed with a
  shorter one; the matcher below reads the pattern from left to right in that way. It
  returns the text of the two groups. Lemma \<open>MATCH_PROG_match_iff\<close> below relates it to
  the language of the pattern.
\<close>

definition is_digit :: "char \<Rightarrow> bool" where
  "is_digit c = (c \<in> set ''0123456789'')"

fun literal :: "string \<Rightarrow> string \<Rightarrow> string option" where
  "literal [] s = Some s"
| "literal (c # cs) [] = None"
| "literal (c # cs) (d # ds) = (if c = d then literal cs ds else None)"

definition digits1 :: "string \<Rightarrow> (string \<times> string) option" where
  "digits1 s =
     (if takeWhile is_digit s = [] then None
      else Some (takeWhile is_digit s, dropWhile is_digit s))"

definition MATCH_PROG_match :: "string \<Rightarrow> (string \<times> string) option" where
  "MATCH_PROG_match block = do {
     r1 \<leftarrow> literal ''@@ -'' block;
     (oldS, r2) \<leftarrow> digits1 r1;
     r3 \<leftarrow> literal '','' r2;
     (oldE, r4) \<leftarrow> digits1 r3;
     r5 \<leftarrow> literal '' +'' r4;
     (group1, r6) \<leftarrow> digits1 r5;
     r7 \<leftarrow> literal '','' r6;
     (group2, r8) \<leftarrow> digits1 r7;
     r9 \<leftarrow> literal '' @@'' r8;
     Some (group1, group2)
   }"

text \<open>
  The language of the pattern: \<open>hunk_header oldS oldE newS newE\<close> for four non-empty
  strings of digits.
\<close>

definition digit_string :: "string \<Rightarrow> bool" where
  "digit_string s = (s \<noteq> [] \<and> list_all is_digit s)"

definition hunk_header :: "string \<Rightarrow> string \<Rightarrow> string \<Rightarrow> string \<Rightarrow> string" where
  "hunk_header oldS oldE newS newE =
     ''@@ -'' @ oldS @ '','' @ oldE @ '' +'' @ newS @ '','' @ newE @ '' @@''"

text \<open>
  \<^verbatim>\<open>int(s)\<close> on a non-empty string of ASCII digits: the decimal value, leading zeros
  allowed. CPython refuses to convert a string of more than \<^verbatim>\<open>sys.int_max_str_digits\<close>
  digits (4300 unless the interpreter is started with another limit), leading zeros
  counted, and raises \<^verbatim>\<open>ValueError\<close>.
\<close>

definition digit_val :: "char \<Rightarrow> int" where
  "digit_val c = int (of_char c) - 48"

definition decimal_value :: "string \<Rightarrow> int" where
  "decimal_value s = foldl (\<lambda>acc c. 10 * acc + digit_val c) 0 s"

definition int_max_str_digits :: nat where
  "int_max_str_digits = 4300"

definition py_int :: "string \<Rightarrow> error + int" where
  "py_int s = (if int_max_str_digits < length s then Inl ValueError else Inr (decimal_value s))"

subsection \<open>The generator \<^verbatim>\<open>_get_blocks\<close>\<close>

text \<open>\<^verbatim>\<open>patch[a:b]\<close> for indices \<open>0 \<le> a\<close>, \<open>0 \<le> b\<close>.\<close>

definition slice :: "'a list \<Rightarrow> nat \<Rightarrow> nat \<Rightarrow> 'a list" where
  "slice xs a b = take (b - a) (drop a xs)"

text \<open>
  The inner loop, started at \<open>j = i + 2\<close>:
  \<^verbatim>\<open>
  while j+1 < len(patch):
      if patch[j] == '@' and patch[j+1] == '@':
          yield patch[i:j+2]; i = j+2; break
      else:
          j += 1
  \<close>
  It returns the \<open>j\<close> at which it breaks, or \<open>None\<close> when it runs off the end of the text
  without a \<^verbatim>\<open>yield\<close>.
\<close>

function get_blocks_inner :: "string \<Rightarrow> nat \<Rightarrow> nat option" where
  "get_blocks_inner patch j =
     (if j + 1 < length patch then
        (if patch ! j = CHR ''@'' \<and> patch ! (j + 1) = CHR ''@'' then Some j
         else get_blocks_inner patch (j + 1))
      else None)"
  by pat_completeness auto
termination
  by (relation "measure (\<lambda>(patch, j). length patch - j)") auto

declare get_blocks_inner.simps [simp del]

text \<open>
  The outer loop with its two variables \<open>i\<close> and \<open>new_line\<close>; the result is the list of
  the strings the generator yields, in order.
  \<^verbatim>\<open>
  while i+1 < len(patch):
      if new_line:
          if patch[i] == '@' and patch[i+1] == '@':
              j = i+2
              (inner loop)
          else:
              i += 1
          new_line = False
      elif patch[i] == '\n':
          new_line = True
          i += 1
      else:
          i += 1
  \<close>
  When the inner loop finds no closing \<^verbatim>\<open>@@\<close>, \<open>i\<close> is unchanged and only \<open>new_line\<close>
  becomes false.
\<close>

function get_blocks_outer :: "string \<Rightarrow> nat \<Rightarrow> bool \<Rightarrow> string list" where
  "get_blocks_outer patch i new_line =
     (if i + 1 < length patch then
        (if new_line then
           (if patch ! i = CHR ''@'' \<and> patch ! (i + 1) = CHR ''@'' then
              (case get_blocks_inner patch (i + 2) of
                 Some j \<Rightarrow> slice patch i (j + 2) # get_blocks_outer patch (j + 2) False
               | None \<Rightarrow> get_blocks_outer patch i False)
            else get_blocks_outer patch (i + 1) False)
         else if patch ! i = CHR 0x0A then get_blocks_outer patch (i + 1) True
         else get_blocks_outer patch (i + 1) False)
      else [])"
  by pat_completeness auto

termination
proof -
  have ge: "j \<le> k" if "get_blocks_inner patch j = Some k" for patch j k
    using that
  proof (induction patch j rule: get_blocks_inner.induct)
    case (1 patch j)
    then show ?case
      by (subst (asm) (2) get_blocks_inner.simps) (auto split: if_splits)
  qed
  show ?thesis
    by (relation "measure (\<lambda>(patch, i, new_line).
          2 * (length patch - i) + (if new_line then 1 else 0))")
      (auto dest: ge)
qed

declare get_blocks_outer.simps [simp del]

definition get_blocks :: "string \<Rightarrow> string list" where
  "get_blocks patch = get_blocks_outer patch 0 True"

text \<open>
  The same loop once more, yielding for each \<^verbatim>\<open>yield patch[i:j+2]\<close> the two indices
  \<open>(i, j + 2)\<close> of the slice instead of the slice: where in the text each block was found.
  Lemma \<open>get_blocks_spans\<close> below shows that \<open>get_blocks\<close> yields exactly the slices at these
  indices.
\<close>

function get_spans_outer :: "string \<Rightarrow> nat \<Rightarrow> bool \<Rightarrow> (nat \<times> nat) list" where
  "get_spans_outer patch i new_line =
     (if i + 1 < length patch then
        (if new_line then
           (if patch ! i = CHR ''@'' \<and> patch ! (i + 1) = CHR ''@'' then
              (case get_blocks_inner patch (i + 2) of
                 Some j \<Rightarrow> (i, j + 2) # get_spans_outer patch (j + 2) False
               | None \<Rightarrow> get_spans_outer patch i False)
            else get_spans_outer patch (i + 1) False)
         else if patch ! i = CHR 0x0A then get_spans_outer patch (i + 1) True
         else get_spans_outer patch (i + 1) False)
      else [])"
  by pat_completeness auto
termination
proof -
  have ge: "j \<le> k" if "get_blocks_inner patch j = Some k" for patch j k
    using that
  proof (induction patch j rule: get_blocks_inner.induct)
    case (1 patch j)
    then show ?case
      by (subst (asm) (2) get_blocks_inner.simps) (auto split: if_splits)
  qed
  show ?thesis
    by (relation "measure (\<lambda>(patch, i, new_line).
          2 * (length patch - i) + (if new_line then 1 else 0))")
      (auto dest: ge)
qed

declare get_spans_outer.simps [simp del]

definition get_spans :: "string \<Rightarrow> (nat \<times> nat) list" where
  "get_spans patch = get_spans_outer patch 0 True"

text \<open>
  Index \<open>a\<close> is at a freshly started line of \<open>patch\<close>: the start of the text, or right
  after a newline character.
\<close>

definition line_start :: "string \<Rightarrow> nat \<Rightarrow> bool" where
  "line_start patch a = (a = 0 \<or> patch ! (a - 1) = CHR 0x0A)"


subsection \<open>The constructor and \<^verbatim>\<open>range_exists\<close>\<close>

text \<open>
  \<^verbatim>\<open>
  self._blocks = []
  for block in self._get_blocks(patch):
      m = self._MATCH_PROG.match(block)
      if m:
          self._blocks.append((int(m.group(1)), int(m.group(2))))
  \<close>
  The loop carries the list \<^verbatim>\<open>_blocks\<close> along as \<open>stored\<close>; a \<^verbatim>\<open>ValueError\<close> of \<^verbatim>\<open>int\<close> leaves the loop and the
  constructor, and no object is built.
\<close>

record PatchBlocks =
  blocks :: "(int \<times> int) list"

fun init_loop :: "string list \<Rightarrow> (int \<times> int) list \<Rightarrow> error + (int \<times> int) list" where
  "init_loop [] stored = Inr stored"
| "init_loop (block # rest) stored =
     (case MATCH_PROG_match block of
        Some (group1, group2) \<Rightarrow>
          (case py_int group1 of
             Inl e \<Rightarrow> Inl e
           | Inr start \<Rightarrow>
               (case py_int group2 of
                  Inl e \<Rightarrow> Inl e
                | Inr end \<Rightarrow> init_loop rest (stored @ [(start, end)])))
      | None \<Rightarrow> init_loop rest stored)"

definition PatchBlocks_init :: "string \<Rightarrow> error + PatchBlocks" where
  "PatchBlocks_init patch =
     (case init_loop (get_blocks patch) [] of
        Inl e \<Rightarrow> Inl e
      | Inr stored \<Rightarrow> Inr \<lparr>blocks = stored\<rparr>)"

text \<open>
  \<^verbatim>\<open>block[0] <= start\<close> and \<^verbatim>\<open>end <= block[1]\<close>, where the block's fields are ints and the
  other operand is whatever the report holds. An int compares with an int and with a bool
  (\<^verbatim>\<open>True\<close> is 1, \<^verbatim>\<open>False\<close> is 0); with \<^verbatim>\<open>None\<close>, a string, a list or a dict the
  comparison raises \<^verbatim>\<open>TypeError\<close>.
\<close>

fun as_number :: "json \<Rightarrow> int option" where
  "as_number (JInt n) = Some n"
| "as_number (JBool b) = Some (if b then 1 else 0)"
| "as_number _ = None"

definition int_le_json :: "int \<Rightarrow> json \<Rightarrow> error + bool" where
  "int_le_json a v = (case as_number v of Some n \<Rightarrow> Inr (a \<le> n) | None \<Rightarrow> Inl TypeError)"

definition json_le_int :: "json \<Rightarrow> int \<Rightarrow> error + bool" where
  "json_le_int v b = (case as_number v of Some n \<Rightarrow> Inr (n \<le> b) | None \<Rightarrow> Inl TypeError)"

text \<open>
  \<^verbatim>\<open>
  for block in self._blocks:
      if block[0] <= start and end <= block[1]:
          return True
  return False
  \<close>
  \<^verbatim>\<open>and\<close> evaluates its right operand only when the left one is true.
\<close>

fun range_exists_loop :: "(int \<times> int) list \<Rightarrow> json \<Rightarrow> json \<Rightarrow> error + bool" where
  "range_exists_loop [] start end = Inr False"
| "range_exists_loop (block # rest) start end =
     (case int_le_json (fst block) start of
        Inl e \<Rightarrow> Inl e
      | Inr left \<Rightarrow>
          if left then
            (case json_le_int end (snd block) of
               Inl e \<Rightarrow> Inl e
             | Inr right \<Rightarrow> if right then Inr True else range_exists_loop rest start end)
          else range_exists_loop rest start end)"

definition range_exists :: "PatchBlocks \<Rightarrow> json \<Rightarrow> json \<Rightarrow> error + bool" where
  "range_exists self start end = range_exists_loop (blocks self) start end"

section \<open>The report\<close>

subsection \<open>Subscripting and iterating loaded JSON\<close>

text \<open>
  \<^verbatim>\<open>v[key]\<close> with a string key: a dict without the key raises \<^verbatim>\<open>KeyError\<close>; a list, a
  string, a number, a bool or \<^verbatim>\<open>None\<close> raises \<^verbatim>\<open>TypeError\<close>.
\<close>

fun subscript :: "json \<Rightarrow> string \<Rightarrow> error + json" where
  "subscript (JObj items) key =
     (case map_of items key of Some v \<Rightarrow> Inr v | None \<Rightarrow> Inl (KeyError key))"
| "subscript _ key = Inl TypeError"

text \<open>
  \<^verbatim>\<open>for x in v\<close>: a list gives its elements, a dict its keys, a string its characters as
  one-character strings; anything else is not iterable.
\<close>

fun iterate :: "json \<Rightarrow> error + json list" where
  "iterate (JArr xs) = Inr xs"
| "iterate (JObj items) = Inr (map (\<lambda>(k, v). JStr k) items)"
| "iterate (JStr s) = Inr (map (\<lambda>c. JStr [c]) s)"
| "iterate _ = Inl TypeError"

definition ebind :: "error + 'a \<Rightarrow> ('a \<Rightarrow> error + 'b) \<Rightarrow> error + 'b" where
  "ebind m f = (case m of Inl e \<Rightarrow> Inl e | Inr x \<Rightarrow> f x)"

subsection \<open>Generators\<close>

text \<open>
  What a generator over in-memory data does when it is run to its end: it yields values
  one after the other and then either returns (\<open>Stop\<close>) or raises (\<open>Raise\<close>). A consumer
  that leaves its loop early never sees the rest.
\<close>

datatype 'a gen = Stop | Yield 'a "'a gen" | Raise error

text \<open>Running one generator body after another: a raise in the first ends both.\<close>

fun gen_append :: "'a gen \<Rightarrow> 'a gen \<Rightarrow> 'a gen" where
  "gen_append Stop h = h"
| "gen_append (Yield x g) h = Yield x (gen_append g h)"
| "gen_append (Raise e) h = Raise e"

text \<open>The generator that yields the elements of a list and then goes on as \<open>g\<close>.\<close>

fun yields :: "'a list \<Rightarrow> 'a gen \<Rightarrow> 'a gen" where
  "yields [] g = g"
| "yields (x # xs) g = Yield x (yields xs g)"

subsection \<open>\<^verbatim>\<open>snyk_results\<close>\<close>

text \<open>
  \<^verbatim>\<open>
  for run in snyk_report["runs"]:
      for result in run["results"]:
          for location in result["locations"]:
              filename = location["physicalLocation"]["artifactLocation"]['uri']
              start    = location["physicalLocation"]["region"]['startLine']
              end      = location["physicalLocation"]["region"]['endLine']
              yield (filename, (start, end))
  \<close>
  A finding is the tuple that is yielded; its three components are taken from the report as
  they are.
\<close>

type_synonym finding = "json \<times> (json \<times> json)"

definition location_finding :: "json \<Rightarrow> error + finding" where
  "location_finding location =
     ebind (ebind (ebind (subscript location ''physicalLocation'')
                    (\<lambda>p. subscript p ''artifactLocation'')) (\<lambda>a. subscript a ''uri''))
       (\<lambda>filename.
     ebind (ebind (ebind (subscript location ''physicalLocation'')
                    (\<lambda>p. subscript p ''region'')) (\<lambda>r. subscript r ''startLine''))
       (\<lambda>start.
     ebind (ebind (ebind (subscript location ''physicalLocation'')
                    (\<lambda>p. subscript p ''region'')) (\<lambda>r. subscript r ''endLine''))
       (\<lambda>end. Inr (filename, (start, end)))))"

fun locations_loop :: "json list \<Rightarrow> finding gen" where
  "locations_loop [] = Stop"
| "locations_loop (location # rest) =
     (case location_finding location of
        Inl e \<Rightarrow> Raise e
      | Inr f \<Rightarrow> Yield f (locations_loop rest))"

fun results_loop :: "json list \<Rightarrow> finding gen" where
  "results_loop [] = Stop"
| "results_loop (result # rest) =
     (case ebind (subscript result ''locations'') iterate of
        Inl e \<Rightarrow> Raise e
      | Inr locations \<Rightarrow> gen_append (locations_loop locations) (results_loop rest))"

fun runs_loop :: "json list \<Rightarrow> finding gen" where
  "runs_loop [] = Stop"
| "runs_loop (run # rest) =
     (case ebind (subscript run ''results'') iterate of
        Inl e \<Rightarrow> Raise e
      | Inr results \<Rightarrow> gen_append (results_loop results) (runs_loop rest))"

definition snyk_results :: "json \<Rightarrow> finding gen" where
  "snyk_results snyk_report =
     (case ebind (subscript snyk_report ''runs'') iterate of
        Inl e \<Rightarrow> Raise e
      | Inr runs \<Rightarrow> runs_loop runs)"

section \<open>The check of \<^verbatim>\<open>main\<close>\<close>

text \<open>
  The loop at the end of \<^verbatim>\<open>main\<close>, over what \<^verbatim>\<open>snyk_results\<close> yields. \<open>commit_files\<close> is
  the dict from file names to \<open>PatchBlocks\<close> that \<^verbatim>\<open>main\<close> builds from the commit.
  \<^verbatim>\<open>
  for filename, region in snyk_results(snyk_report):
      if filename in commit_files:
          if not commit_files[filename].range_exists(region[0], region[1]):
              return False
      else:
          return False
  return True
  \<close>
  \<^verbatim>\<open>filename in commit_files\<close> hashes \<open>filename\<close>: a list or a dict is unhashable and raises
  \<^verbatim>\<open>TypeError\<close>; a number, a bool or \<^verbatim>\<open>None\<close> is hashable and equal to no string key.
\<close>

fun main_loop :: "(string \<rightharpoonup> PatchBlocks) \<Rightarrow> finding gen \<Rightarrow> error + bool" where
  "main_loop commit_files Stop = Inr True"
| "main_loop commit_files (Raise e) = Inl e"
| "main_loop commit_files (Yield (filename, region) g) =
     (case filename of
        JStr name \<Rightarrow>
          (case commit_files name of
             Some patch_blocks \<Rightarrow>
               (case range_exists patch_blocks (fst region) (snd region) of
                  Inl e \<Rightarrow> Inl e
                | Inr found \<Rightarrow> if found then main_loop commit_files g else Inr False)
           | None \<Rightarrow> Inr False)
      | JArr xs \<Rightarrow> Inl TypeError
      | JObj items \<Rightarrow> Inl TypeError
      | _ \<Rightarrow> Inr False)"

definition main_check :: "(string \<rightharpoonup> PatchBlocks) \<Rightarrow> json \<Rightarrow> error + bool" where
  "main_check commit_files snyk_report = main_loop commit_files (snyk_results snyk_report)"

text \<open>
  A finding whose file name is a string and whose lines are ints, as the report format
  has them.
\<close>

definition finding_of :: "string \<times> int \<times> int \<Rightarrow> finding" where
  "finding_of f = (case f of (name, start, end) \<Rightarrow> (JStr name, (JInt start, JInt end)))"

text \<open>
  What the body of the loop decides for a finding with a string file name and int lines:
  the file is a key of \<open>commit_files\<close> and the range is nested in one stored range
  (lemma \<open>main_loop_Yield_finding_of\<close> below).
\<close>

definition passes :: "(string \<rightharpoonup> PatchBlocks) \<Rightarrow> string \<times> int \<times> int \<Rightarrow> bool" where
  "passes commit_files f =
     (case f of (name, start, end) \<Rightarrow>
        (case commit_files name of
           None \<Rightarrow> False
         | Some patch_blocks \<Rightarrow> \<exists>r\<in>set (blocks patch_blocks). fst r \<le> start \<and> end \<le> snd r))"

subsection \<open>Reports of the documented shape\<close>

text \<open>
  The objects the loops of \<^verbatim>\<open>snyk_results\<close> walk through, from the inside out: a location
  with its three fields, a result with its locations, a run with its results, a report
  with its runs.
\<close>

definition location_json :: "string \<times> int \<times> int \<Rightarrow> json" where
  "location_json f =
     (case f of (uri, startLine, endLine) \<Rightarrow>
        JObj [(''physicalLocation'',
               JObj [(''artifactLocation'', JObj [(''uri'', JStr uri)]),
                     (''region'', JObj [(''startLine'', JInt startLine),
                                        (''endLine'', JInt endLine)])])])"

definition result_json :: "json list \<Rightarrow> json" where
  "result_json locations = JObj [(''locations'', JArr locations)]"

definition run_json :: "json list \<Rightarrow> json" where
  "run_json results = JObj [(''results'', JArr results)]"

definition report_json :: "json list \<Rightarrow> json" where
  "report_json runs = JObj [(''runs'', JArr runs)]"

text \<open>
  The report with the given findings, grouped by run and by result, every location with a
  string \<^verbatim>\<open>uri\<close> and int \<^verbatim>\<open>startLine\<close> and \<^verbatim>\<open>endLine\<close>.
\<close>

definition typed_report :: "(string \<times> int \<times> int) list list list \<Rightarrow> json" where
  "typed_report runs =
     report_json
       (map (\<lambda>results. run_json (map (\<lambda>fs. result_json (map location_json fs)) results)) runs)"

text \<open>
  Reports that have the documented shape up to one place: all the runs before a given run,
  all the results before a given result of it and all the locations before a given location
  of that result are as in \<open>typed_report\<close>; the given run, result or location and everything
  after it are arbitrary JSON values.
\<close>

definition typed_result :: "(string \<times> int \<times> int) list \<Rightarrow> json" where
  "typed_result fs = result_json (map location_json fs)"

definition typed_run :: "(string \<times> int \<times> int) list list \<Rightarrow> json" where
  "typed_run results = run_json (map typed_result results)"

definition report_with_run :: "(string \<times> int \<times> int) list list list \<Rightarrow> json \<Rightarrow> json list \<Rightarrow> json" where
  "report_with_run runs_before run runs_after =
     report_json (map typed_run runs_before @ run # runs_after)"

definition report_with_result ::
  "(string \<times> int \<times> int) list list list \<Rightarrow> (string \<times> int \<times> int) list list \<Rightarrow> json \<Rightarrow>
     json list \<Rightarrow> json list \<Rightarrow> json" where
  "report_with_result runs_before results_before result results_after runs_after =
     report_with_run runs_before
       (run_json (map typed_result results_before @ result # results_after)) runs_after"

definition report_with_location ::
  "(string \<times> int \<times> int) list list list \<Rightarrow> (string \<times> int \<times> int) list list \<Rightarrow>
     (string \<times> int \<times> int) list \<Rightarrow> json \<Rightarrow> json list \<Rightarrow> json list \<Rightarrow> json list \<Rightarrow> json" where
  "report_with_location runs_before results_before locations_before location
       locations_after results_after runs_after =
     report_with_result runs_before results_before
       (result_json (map location_json locations_before @ location # locations_after))
       results_after runs_after"

section \<open>Properties\<close>

subsection \<open>The pattern\<close>

lemma literal_iff: "literal p s = Some r \<longleftrightarrow> s = p @ r"
  by (induction p s rule: literal.induct) auto

lemma literal_append [simp]: "literal p (p @ r) = Some r"
  by (simp add: literal_iff)

lemma digits1_iff:
  "digits1 s = Some (d, r) \<longleftrightarrow> digit_string d \<and> s = d @ r \<and> (r = [] \<or> \<not> is_digit (hd r))"
proof
  assume "digits1 s = Some (d, r)"
  then have d: "d = takeWhile is_digit s" and r: "r = dropWhile is_digit s" and ne: "d \<noteq> []"
    by (auto simp: digits1_def split: if_splits)
  have "list_all is_digit d"
    unfolding d list_all_iff by (auto dest: set_takeWhileD)
  moreover have "r = [] \<or> \<not> is_digit (hd r)"
    unfolding r by (metis dropWhile_eq_Nil_conv hd_dropWhile)
  ultimately show "digit_string d \<and> s = d @ r \<and> (r = [] \<or> \<not> is_digit (hd r))"
    using ne d r by (simp add: digit_string_def)
next
  assume a: "digit_string d \<and> s = d @ r \<and> (r = [] \<or> \<not> is_digit (hd r))"
  then have all: "\<forall>c\<in>set d. is_digit c" and ne: "d \<noteq> []" and s: "s = d @ r"
    by (auto simp: digit_string_def list_all_iff)
  have "takeWhile is_digit s = d \<and> dropWhile is_digit s = r"
  proof (cases r)
    case Nil
    then show ?thesis using all s by simp
  next
    case (Cons c cs)
    then have "\<not> is_digit c" using a by simp
    then show ?thesis using all s Cons
      by (simp add: takeWhile_append2 dropWhile_append2)
  qed
  then show "digits1 s = Some (d, r)"
    using ne by (simp add: digits1_def)
qed

lemma digits1_sep:
  "digit_string d \<Longrightarrow> \<not> is_digit c \<Longrightarrow> digits1 (d @ c # r) = Some (d, c # r)"
  by (simp add: digits1_iff)

lemma not_digit_sep [simp]: "\<not> is_digit CHR '',''" "\<not> is_digit CHR '' ''"
  by (simp_all add: is_digit_def)

lemma MATCH_PROG_match_iff:
  "MATCH_PROG_match block = Some (newS, newE) \<longleftrightarrow>
     (\<exists>oldS oldE rest. digit_string oldS \<and> digit_string oldE \<and> digit_string newS \<and>
        digit_string newE \<and> block = hunk_header oldS oldE newS newE @ rest)"
proof
  assume "MATCH_PROG_match block = Some (newS, newE)"
  then obtain r1 oldS r2 r3 oldE r4 r5 r6 r7 r8 r9 where
    "literal ''@@ -'' block = Some r1" "digits1 r1 = Some (oldS, r2)"
    "literal '','' r2 = Some r3" "digits1 r3 = Some (oldE, r4)"
    "literal '' +'' r4 = Some r5" "digits1 r5 = Some (newS, r6)"
    "literal '','' r6 = Some r7" "digits1 r7 = Some (newE, r8)"
    "literal '' @@'' r8 = Some r9"
    unfolding MATCH_PROG_match_def
    by (auto split: Option.bind_splits prod.splits)
  then show "\<exists>oldS oldE rest. digit_string oldS \<and> digit_string oldE \<and> digit_string newS \<and>
        digit_string newE \<and> block = hunk_header oldS oldE newS newE @ rest"
    unfolding literal_iff digits1_iff hunk_header_def by auto
next
  assume "\<exists>oldS oldE rest. digit_string oldS \<and> digit_string oldE \<and> digit_string newS \<and>
        digit_string newE \<and> block = hunk_header oldS oldE newS newE @ rest"
  then obtain oldS oldE rest where d: "digit_string oldS" "digit_string oldE"
    "digit_string newS" "digit_string newE"
    and b: "block = hunk_header oldS oldE newS newE @ rest"
    by blast
  show "MATCH_PROG_match block = Some (newS, newE)"
    unfolding MATCH_PROG_match_def b hunk_header_def
    using d by (simp add: digits1_sep)
qed

subsection \<open>The scan for blocks\<close>

lemma get_blocks_inner_Some:
  "get_blocks_inner patch j0 = Some j \<longleftrightarrow>
     j0 \<le> j \<and> j + 1 < length patch \<and> patch ! j = CHR ''@'' \<and> patch ! (j + 1) = CHR ''@'' \<and>
     (\<forall>k. j0 \<le> k \<and> k < j \<longrightarrow> \<not> (patch ! k = CHR ''@'' \<and> patch ! (k + 1) = CHR ''@''))"
proof (induction patch j0 rule: get_blocks_inner.induct)
  case (1 patch j0)
  show ?case
  proof (cases "j0 + 1 < length patch")
    case False
    then show ?thesis
      by (subst get_blocks_inner.simps) auto
  next
    case in_range: True
    show ?thesis
    proof (cases "patch ! j0 = CHR ''@'' \<and> patch ! (j0 + 1) = CHR ''@''")
      case True
      have "get_blocks_inner patch j0 = Some j0"
        using in_range True by (subst get_blocks_inner.simps) simp
      moreover have "j0 < j \<Longrightarrow> \<not> (\<forall>k. j0 \<le> k \<and> k < j \<longrightarrow>
          \<not> (patch ! k = CHR ''@'' \<and> patch ! (k + 1) = CHR ''@''))"
        using True by auto
      ultimately show ?thesis
        using in_range True by (cases "j0 = j") auto
    next
      case False
      have step: "get_blocks_inner patch j0 = get_blocks_inner patch (j0 + 1)"
        using in_range False by (subst get_blocks_inner.simps) auto
      have "(\<forall>k. j0 \<le> k \<and> k < j \<longrightarrow> \<not> (patch ! k = CHR ''@'' \<and> patch ! (k + 1) = CHR ''@''))
        \<longleftrightarrow> (\<forall>k. j0 + 1 \<le> k \<and> k < j \<longrightarrow> \<not> (patch ! k = CHR ''@'' \<and> patch ! (k + 1) = CHR ''@''))"
        using False by (metis Suc_eq_plus1 Suc_leI le_neq_implies_less Suc_leD)
      moreover have "j0 \<noteq> j" if "patch ! j = CHR ''@'' \<and> patch ! (j + 1) = CHR ''@''"
        using that False by auto
      ultimately show ?thesis
        unfolding step using "1.IH" [OF in_range False] by auto
    qed
  qed
qed

lemma get_blocks_spans_outer:
  "get_blocks_outer patch i new_line =
     map (\<lambda>(a, b). slice patch a b) (get_spans_outer patch i new_line)"
proof (induction patch i new_line rule: get_spans_outer.induct)
  case (1 patch i new_line)
  show ?case
    apply (subst get_blocks_outer.simps)
    apply (subst get_spans_outer.simps)
    using 1 by (auto split: option.splits)
qed

lemma get_blocks_spans:
  "get_blocks patch = map (\<lambda>(a, b). slice patch a b) (get_spans patch)"
  by (simp add: get_blocks_def get_spans_def get_blocks_spans_outer)

lemma get_spans_outer_inv:
  "(new_line \<longrightarrow> line_start patch i) \<Longrightarrow> (a, b) \<in> set (get_spans_outer patch i new_line) \<Longrightarrow>
     i \<le> a \<and> line_start patch a \<and> patch ! a = CHR ''@'' \<and> patch ! (a + 1) = CHR ''@'' \<and>
     a + 4 \<le> b \<and> b \<le> length patch \<and> get_blocks_inner patch (a + 2) = Some (b - 2)"
proof (induction patch i new_line rule: get_spans_outer.induct)
  case (1 patch i new_line)
  note mem = "1.prems"(2) and inv = "1.prems"(1)
  show ?case
  proof (cases "i + 1 < length patch")
    case False
    then show ?thesis using mem by (subst (asm) get_spans_outer.simps) simp
  next
    case in_range: True
    show ?thesis
    proof (cases new_line)
      case nl: True
      show ?thesis
      proof (cases "patch ! i = CHR ''@'' \<and> patch ! (i + 1) = CHR ''@''")
        case at: True
        show ?thesis
        proof (cases "get_blocks_inner patch (i + 2)")
          case None
          then have "(a, b) \<in> set (get_spans_outer patch i False)"
            using mem in_range nl at by (subst (asm) get_spans_outer.simps) simp
          then show ?thesis
            using "1.IH"(1) [OF in_range nl at None] by simp
        next
          case (Some j)
          then have "(a, b) = (i, j + 2) \<or> (a, b) \<in> set (get_spans_outer patch (j + 2) False)"
            using mem in_range nl at by (subst (asm) get_spans_outer.simps) simp
          then show ?thesis
          proof
            assume "(a, b) = (i, j + 2)"
            then show ?thesis
              using Some inv nl at get_blocks_inner_Some [of patch "i + 2" j] by auto
          next
            assume "(a, b) \<in> set (get_spans_outer patch (j + 2) False)"
            then show ?thesis
              using "1.IH"(2) [OF in_range nl at Some] get_blocks_inner_Some [of patch "i + 2" j] Some
              by auto
          qed
        qed
      next
        case False
        then have "(a, b) \<in> set (get_spans_outer patch (i + 1) False)"
          using mem in_range nl by (subst (asm) get_spans_outer.simps) auto
        then show ?thesis
          using "1.IH"(3) [OF in_range nl False] by auto
      qed
    next
      case nl: False
      show ?thesis
      proof (cases "patch ! i = CHR 0x0A")
        case True
        then have "(a, b) \<in> set (get_spans_outer patch (i + 1) True)"
          using mem in_range nl by (subst (asm) get_spans_outer.simps) auto
        moreover have "line_start patch (i + 1)"
          using True by (simp add: line_start_def)
        ultimately show ?thesis
          using "1.IH"(4) [OF in_range nl True] by auto
      next
        case False
        then have "(a, b) \<in> set (get_spans_outer patch (i + 1) False)"
          using mem in_range nl by (subst (asm) get_spans_outer.simps) auto
        then show ?thesis
          using "1.IH"(5) [OF in_range nl False] by auto
      qed
    qed
  qed
qed

lemma is_digit_not_at: "is_digit c \<Longrightarrow> c \<noteq> CHR ''@''"
  by (auto simp: is_digit_def)

lemma digit_string_not_at: "digit_string s \<Longrightarrow> CHR ''@'' \<notin> set s"
  by (auto simp: digit_string_def list_all_iff dest: is_digit_not_at)

lemma hunk_header_shape:
  assumes "digit_string oldS" "digit_string oldE" "digit_string newS" "digit_string newE"
  shows "\<exists>body. hunk_header oldS oldE newS newE = ''@@'' @ body @ ''@@'' \<and> CHR ''@'' \<notin> set body"
proof -
  let ?body = "'' -'' @ oldS @ '','' @ oldE @ '' +'' @ newS @ '','' @ newE @ '' ''"
  have "hunk_header oldS oldE newS newE = ''@@'' @ ?body @ ''@@''"
    by (simp add: hunk_header_def)
  moreover have "CHR ''@'' \<notin> set ?body"
    using assms by (simp add: digit_string_not_at)
  ultimately show ?thesis by blast
qed

lemma wrapped_nth:
  assumes "p = ''@@'' @ body @ ''@@'' @ rest"
  shows "p ! 0 = CHR ''@''" "p ! 1 = CHR ''@''"
    "p ! (length body + 2) = CHR ''@''" "p ! (length body + 3) = CHR ''@''"
    "k < length body \<Longrightarrow> p ! (k + 2) = body ! k"
    "length p = length body + 4 + length rest"
  unfolding assms by (simp_all add: nth_append numeral_3_eq_3)






lemma span_block_exact:
  assumes span: "(a, b) \<in> set (get_spans patch)"
    and blk: "slice patch a b = ''@@'' @ body @ ''@@'' @ rest"
  shows "rest = []"
proof (rule ccontr)
  assume ne: "rest \<noteq> []"
  note w = wrapped_nth [OF blk]
  have inv: "a + 4 \<le> b" "b \<le> length patch" "get_blocks_inner patch (a + 2) = Some (b - 2)"
    using get_spans_outer_inv [of True patch 0 a b] span
    by (simp_all add: get_spans_def line_start_def)
  have len: "length (slice patch a b) = b - a"
    using inv by (simp add: slice_def)
  then have L: "length body + 4 + length rest = b - a"
    using w(6) by simp
  have rest: "0 < length rest" using ne by simp
  have nth: "patch ! (a + n) = (slice patch a b) ! n" if "n < b - a" for n
    using that inv by (simp add: slice_def)
  define k where "k = a + (length body + 2)"
  have "patch ! k = CHR ''@''"
    unfolding k_def using nth [of "length body + 2"] L w(3) by simp
  moreover have "patch ! (a + (length body + 3)) = CHR ''@''"
    using nth [of "length body + 3"] L w(4) rest by simp
  then have "patch ! (k + 1) = CHR ''@''"
    unfolding k_def by (simp add: numeral_3_eq_3)
  moreover have "a + 2 \<le> k" "k < b - 2"
    unfolding k_def using L rest inv(1) by linarith+
  ultimately show False
    using inv(3) unfolding get_blocks_inner_Some by blast
qed

subsection \<open>The conversion of the numbers and the loop of the constructor\<close>

lemma digit_val_nonneg: "is_digit c \<Longrightarrow> 0 \<le> digit_val c"
  by (auto simp: is_digit_def digit_val_def)

lemma foldl_digits_nonneg:
  "0 \<le> acc \<Longrightarrow> list_all is_digit s \<Longrightarrow> 0 \<le> foldl (\<lambda>acc c. 10 * acc + digit_val c) acc s"
proof (induction s arbitrary: acc)
  case Nil
  then show ?case by simp
next
  case (Cons c s)
  then have "0 \<le> 10 * acc + digit_val c"
    using digit_val_nonneg [of c] by simp
  then show ?case using Cons by simp
qed

lemma decimal_value_nonneg: "digit_string s \<Longrightarrow> 0 \<le> decimal_value s"
  by (simp add: decimal_value_def digit_string_def foldl_digits_nonneg)

lemma decimal_value_snoc: "decimal_value (s @ [c]) = 10 * decimal_value s + digit_val c"
  by (simp add: decimal_value_def)

lemma py_int_cases:
  "py_int s = Inr (decimal_value s) \<and> length s \<le> int_max_str_digits \<or>
   py_int s = Inl ValueError \<and> int_max_str_digits < length s"
  by (auto simp: py_int_def)

text \<open>What the loop of the constructor returns.\<close>

lemma init_loop_result:
  "init_loop bs stored =
     (if \<exists>b\<in>set bs. \<exists>g1 g2. MATCH_PROG_match b = Some (g1, g2) \<and>
           (int_max_str_digits < length g1 \<or> int_max_str_digits < length g2)
      then Inl ValueError
      else Inr (stored @ map (\<lambda>(g1, g2). (decimal_value g1, decimal_value g2))
                          (List.map_filter MATCH_PROG_match bs)))"
proof (induction bs arbitrary: stored)
  case Nil
  then show ?case by (simp add: List.map_filter_simps)
next
  case (Cons b bs)
  show ?case
  proof (cases "MATCH_PROG_match b")
    case None
    then show ?thesis using Cons by (simp add: List.map_filter_simps)
  next
    case (Some g)
    obtain g1 g2 where g: "g = (g1, g2)" by (cases g)
    show ?thesis
      using Some Cons unfolding g
      by (auto simp: List.map_filter_simps py_int_def)
  qed
qed

lemma init_loop_mem:
  assumes "init_loop bs [] = Inr out"
  shows "r \<in> set out \<longleftrightarrow>
     (\<exists>b\<in>set bs. \<exists>g1 g2. MATCH_PROG_match b = Some (g1, g2) \<and>
        r = (decimal_value g1, decimal_value g2))"
proof -
  have "out = map (\<lambda>(g1, g2). (decimal_value g1, decimal_value g2))
      (List.map_filter MATCH_PROG_match bs)"
    using assms unfolding init_loop_result by (simp split: if_splits)
  then show ?thesis
    by (force simp: List.map_filter_def)
qed

lemma PatchBlocks_init_Inr:
  "PatchBlocks_init patch = Inr self \<longleftrightarrow> init_loop (get_blocks patch) [] = Inr (blocks self)"
  by (cases self) (auto simp: PatchBlocks_init_def split: sum.splits)

lemma PatchBlocks_init_Inl:
  "PatchBlocks_init patch = Inl e \<longleftrightarrow> init_loop (get_blocks patch) [] = Inl e"
  by (auto simp: PatchBlocks_init_def split: sum.splits)

subsection \<open>The scan of a text given line by line\<close>
























subsection \<open>What the constructor stores\<close>

lemma stored_range_origin:
  assumes "PatchBlocks_init patch = Inr self" and "r \<in> set (blocks self)"
  shows "\<exists>(a, b)\<in>set (get_spans patch). \<exists>oldS oldE newS newE.
           digit_string oldS \<and> digit_string oldE \<and> digit_string newS \<and> digit_string newE \<and>
           slice patch a b = hunk_header oldS oldE newS newE \<and>
           r = (decimal_value newS, decimal_value newE)"
proof -
  have "init_loop (get_blocks patch) [] = Inr (blocks self)"
    using assms(1) by (simp add: PatchBlocks_init_Inr)
  from init_loop_mem [OF this, of r] assms(2)
  obtain blk newS newE where blk: "blk \<in> set (get_blocks patch)"
    and m: "MATCH_PROG_match blk = Some (newS, newE)"
    and r: "r = (decimal_value newS, decimal_value newE)"
    by blast
  from blk obtain a b where span: "(a, b) \<in> set (get_spans patch)" and sl: "blk = slice patch a b"
    unfolding get_blocks_spans by auto
  from m obtain oldS oldE rest where d: "digit_string oldS" "digit_string oldE"
    "digit_string newS" "digit_string newE"
    and h: "blk = hunk_header oldS oldE newS newE @ rest"
    unfolding MATCH_PROG_match_iff by blast
  from hunk_header_shape [OF d] obtain body
    where body: "hunk_header oldS oldE newS newE = ''@@'' @ body @ ''@@''"
    by blast
  have "slice patch a b = ''@@'' @ body @ ''@@'' @ rest"
    using h sl body by simp
  then have "rest = []" by (rule span_block_exact [OF span])
  then have "slice patch a b = hunk_header oldS oldE newS newE"
    using h sl by simp
  then show ?thesis using span d r by blast
qed




section \<open>The claims about \<^verbatim>\<open>PatchBlocks\<close>\<close>




text \<open>
  C8, as amended. The claim that every stored range has \<open>start \<le> end\<close> and both at least
  1 fails: the constructor stores the two numbers of the header as they are. What holds
  for every patch text is that both fields of every range of the constructed index are
  non-negative.
\<close>

theorem stored_ranges_nonneg:
  "PatchBlocks_init patch = Inr self \<longrightarrow>
     (\<forall>r\<in>set (blocks self). 0 \<le> fst r \<and> 0 \<le> snd r)"
proof (intro impI ballI)
  fix r assume ok: "PatchBlocks_init patch = Inr self" and "r \<in> set (blocks self)"
  from stored_range_origin [OF this]
  obtain newS newE where "digit_string newS" "digit_string newE"
    "r = (decimal_value newS, decimal_value newE)"
    by blast
  then show "0 \<le> fst r \<and> 0 \<le> snd r"
    by (simp add: decimal_value_nonneg)
qed

text \<open>The theorem at the patch \<^verbatim>\<open>@@ -1,5 +10,2 @@\<close>.\<close>

theorem stored_ranges_nonneg_witness:
  "PatchBlocks_init ''@@ -1,5 +10,2 @@'' = Inr \<lparr>blocks = [(10, 2)]\<rparr> \<and>
   (10, 2) \<in> set (blocks \<lparr>blocks = [(10, 2)]\<rparr>) \<and>
   (0::int) \<le> fst (10::int, 2::int) \<and> (0::int) \<le> snd (10::int, 2::int)"
proof -
  have init: "PatchBlocks_init ''@@ -1,5 +10,2 @@'' = Inr \<lparr>blocks = [(10, 2)]\<rparr>"
    by code_simp
  have mem: "(10, 2) \<in> set (blocks \<lparr>blocks = [(10, 2)]\<rparr>)"
    by simp
  from stored_ranges_nonneg [of "''@@ -1,5 +10,2 @@''" "\<lparr>blocks = [(10, 2)]\<rparr>"] init mem
  have "(0::int) \<le> fst (10::int, 2::int) \<and> (0::int) \<le> snd (10::int, 2::int)" by blast
  with init mem show ?thesis by blast
qed

text \<open>
  C8 as stated is false: \<^verbatim>\<open>@@ -1,5 +10,2 @@\<close> stores (10, 2), whose start exceeds its end,
  and \<^verbatim>\<open>@@ -0,0 +0,0 @@\<close> stores (0, 0), whose fields are below 1.
\<close>

theorem LineRange_invariant_counterexample:
  "PatchBlocks_init ''@@ -1,5 +10,2 @@'' = Inr \<lparr>blocks = [(10, 2)]\<rparr> \<and> \<not> (10::int) \<le> 2 \<and>
   PatchBlocks_init ''@@ -0,0 +0,0 @@'' = Inr \<lparr>blocks = [(0, 0)]\<rparr> \<and> \<not> (1::int) \<le> 0"
  by code_simp

text \<open>
  C9. A block is found only where its opening \<^verbatim>\<open>@@\<close> is at a freshly started line: at the
  very start of the patch text or right after a newline character. The yielded blocks are
  the slices of the text at the indices \<open>get_spans\<close> gives, every such slice starts at a
  freshly started line, and every range of the constructed index comes from a hunk header
  at such a slice. So a header whose opening \<^verbatim>\<open>@@\<close> is elsewhere within a line contributes
  no range: \<^verbatim>\<open>+x @@ -1,5 +10,20 @@\<close> stores nothing, while the same header on a line of its
  own is stored.
\<close>

theorem blocks_found_only_at_line_start:
  "get_blocks patch = map (\<lambda>(a, b). slice patch a b) (get_spans patch) \<and>
   (\<forall>(a, b)\<in>set (get_spans patch). line_start patch a \<and> a + 4 \<le> b \<and> b \<le> length patch) \<and>
   (PatchBlocks_init patch = Inr self \<longrightarrow>
      (\<forall>r\<in>set (blocks self).
         \<exists>(a, b)\<in>set (get_spans patch). \<exists>oldS oldE newS newE.
           line_start patch a \<and>
           digit_string oldS \<and> digit_string oldE \<and> digit_string newS \<and> digit_string newE \<and>
           slice patch a b = hunk_header oldS oldE newS newE \<and>
           r = (decimal_value newS, decimal_value newE))) \<and>
   PatchBlocks_init ''+x @@ -1,5 +10,20 @@'' = Inr \<lparr>blocks = []\<rparr> \<and>
   PatchBlocks_init ''+x\<newline>@@ -1,5 +10,20 @@'' = Inr \<lparr>blocks = [(10, 20)]\<rparr>"
proof (intro conjI impI)
  show "get_blocks patch = map (\<lambda>(a, b). slice patch a b) (get_spans patch)"
    by (rule get_blocks_spans)
  have inv: "line_start patch a \<and> a + 4 \<le> b \<and> b \<le> length patch"
    if "(a, b) \<in> set (get_spans patch)" for a b
    using get_spans_outer_inv [of True patch 0 a b] that
    by (simp add: get_spans_def line_start_def)
  then show "\<forall>(a, b)\<in>set (get_spans patch). line_start patch a \<and> a + 4 \<le> b \<and> b \<le> length patch"
    by blast
  show "\<forall>r\<in>set (blocks self).
         \<exists>(a, b)\<in>set (get_spans patch). \<exists>oldS oldE newS newE.
           line_start patch a \<and>
           digit_string oldS \<and> digit_string oldE \<and> digit_string newS \<and> digit_string newE \<and>
           slice patch a b = hunk_header oldS oldE newS newE \<and>
           r = (decimal_value newS, decimal_value newE)"
    if ok: "PatchBlocks_init patch = Inr self"
  proof
    fix r assume "r \<in> set (blocks self)"
    from stored_range_origin [OF ok this]
    obtain a b oldS oldE newS newE where "(a, b) \<in> set (get_spans patch)"
      "digit_string oldS" "digit_string oldE" "digit_string newS" "digit_string newE"
      "slice patch a b = hunk_header oldS oldE newS newE"
      "r = (decimal_value newS, decimal_value newE)"
      by blast
    moreover from this inv have "line_start patch a" by blast
    ultimately show "\<exists>(a, b)\<in>set (get_spans patch). \<exists>oldS oldE newS newE.
        line_start patch a \<and>
        digit_string oldS \<and> digit_string oldE \<and> digit_string newS \<and> digit_string newE \<and>
        slice patch a b = hunk_header oldS oldE newS newE \<and>
        r = (decimal_value newS, decimal_value newE)"
      by blast
  qed
  show "PatchBlocks_init ''+x @@ -1,5 +10,20 @@'' = Inr \<lparr>blocks = []\<rparr>" by code_simp
  show "PatchBlocks_init ''+x\<newline>@@ -1,5 +10,20 @@'' = Inr \<lparr>blocks = [(10, 20)]\<rparr>"
    by code_simp
qed

text \<open>The theorem at a patch whose header is on the second line.\<close>

theorem blocks_found_only_at_line_start_witness:
  "(3, 20) \<in> set (get_spans ''+x\<newline>@@ -1,5 +10,20 @@'') \<and>
   line_start ''+x\<newline>@@ -1,5 +10,20 @@'' 3 \<and>
   (3::nat) + 4 \<le> 20 \<and> 20 \<le> length ''+x\<newline>@@ -1,5 +10,20 @@'' \<and>
   PatchBlocks_init ''+x\<newline>@@ -1,5 +10,20 @@'' = Inr \<lparr>blocks = [(10, 20)]\<rparr> \<and>
   (10, 20) \<in> set (blocks \<lparr>blocks = [(10, 20)]\<rparr>) \<and>
   (\<exists>(a, b)\<in>set (get_spans ''+x\<newline>@@ -1,5 +10,20 @@''). \<exists>oldS oldE newS newE.
      line_start ''+x\<newline>@@ -1,5 +10,20 @@'' a \<and>
      digit_string oldS \<and> digit_string oldE \<and> digit_string newS \<and> digit_string newE \<and>
      slice ''+x\<newline>@@ -1,5 +10,20 @@'' a b = hunk_header oldS oldE newS newE \<and>
      (10, 20) = (decimal_value newS, decimal_value newE))"
proof -
  note at_start = blocks_found_only_at_line_start
    [of "''+x\<newline>@@ -1,5 +10,20 @@''" "\<lparr>blocks = [(10, 20)]\<rparr>"]
  have span: "(3, 20) \<in> set (get_spans ''+x\<newline>@@ -1,5 +10,20 @@'')"
    by code_simp
  have init: "PatchBlocks_init ''+x\<newline>@@ -1,5 +10,20 @@'' = Inr \<lparr>blocks = [(10, 20)]\<rparr>"
    by code_simp
  have r: "(10, 20) \<in> set (blocks \<lparr>blocks = [(10, 20)]\<rparr>)"
    by simp
  from at_start span have "line_start ''+x\<newline>@@ -1,5 +10,20 @@'' 3 \<and>
      (3::nat) + 4 \<le> 20 \<and> 20 \<le> length ''+x\<newline>@@ -1,5 +10,20 @@''"
    by blast
  moreover from at_start init r
  have "\<exists>(a, b)\<in>set (get_spans ''+x\<newline>@@ -1,5 +10,20 @@''). \<exists>oldS oldE newS newE.
      line_start ''+x\<newline>@@ -1,5 +10,20 @@'' a \<and>
      digit_string oldS \<and> digit_string oldE \<and> digit_string newS \<and> digit_string newE \<and>
      slice ''+x\<newline>@@ -1,5 +10,20 @@'' a b = hunk_header oldS oldE newS newE \<and>
      (10, 20) = (decimal_value newS, decimal_value newE)"
    by blast
  ultimately show ?thesis using span init r by blast
qed

section \<open>Facts about the loops\<close>

lemma range_exists_loop_ints:
  "range_exists_loop bs (JInt start) (JInt end) =
     Inr (\<exists>r\<in>set bs. fst r \<le> start \<and> end \<le> snd r)"
  by (induction bs) (auto simp: int_le_json_def json_le_int_def)

lemma main_loop_Yield_finding_of:
  "main_loop cf (Yield (finding_of f) g) = (if passes cf f then main_loop cf g else Inr False)"
  by (cases f)
    (auto simp: finding_of_def passes_def range_exists_def range_exists_loop_ints
      split: option.splits)

lemma main_loop_yields_typed:
  "main_loop cf (yields (map finding_of fs) g) =
     (if \<forall>f\<in>set fs. passes cf f then main_loop cf g else Inr False)"
  by (induction fs) (simp_all add: main_loop_Yield_finding_of)

lemma main_loop_yields_True:
  "main_loop cf (yields fs Stop) = Inr True \<Longrightarrow> main_loop cf (yields fs g) = main_loop cf g"
proof (induction fs)
  case Nil
  then show ?case by simp
next
  case (Cons f fs)
  obtain filename region where f: "f = (filename, region)" by (cases f)
  show ?case
    using Cons unfolding f
    by (cases filename) (auto split: option.splits sum.splits if_splits)
qed

lemma main_loop_yields_False:
  "main_loop cf (yields fs Stop) = Inr False \<Longrightarrow> main_loop cf (yields fs g) = Inr False"
proof (induction fs)
  case Nil
  then show ?case by simp
next
  case (Cons f fs)
  obtain filename region where f: "f = (filename, region)" by (cases f)
  show ?case
    using Cons unfolding f
    by (cases filename) (auto split: option.splits sum.splits if_splits)
qed

lemma snyk_results_no_runs:
  "map_of items ''runs'' = None \<Longrightarrow> snyk_results (JObj items) = Raise (KeyError ''runs'')"
  by (simp add: snyk_results_def ebind_def)

lemma passes_iff:
  "passes commit_files (name, start, end) \<longleftrightarrow>
     (\<exists>patch_blocks. commit_files name = Some patch_blocks \<and>
        (\<exists>r\<in>set (blocks patch_blocks). fst r \<le> start \<and> end \<le> snd r))"
  by (auto simp: passes_def split: option.splits)

lemma fails_iff:
  "\<not> passes commit_files (name, start, end) \<longleftrightarrow>
     (case commit_files name of
        None \<Rightarrow> True
      | Some patch_blocks \<Rightarrow>
          \<not> (\<exists>r\<in>set (blocks patch_blocks). fst r \<le> start \<and> end \<le> snd r))"
  by (auto simp: passes_def split: option.splits)

lemma location_finding_location_json: "location_finding (location_json f) = Inr (finding_of f)"
  by (cases f) (simp add: location_finding_def location_json_def finding_of_def ebind_def)

lemma locations_loop_typed:
  "locations_loop (map location_json fs) = yields (map finding_of fs) Stop"
  by (induction fs) (simp_all add: location_finding_location_json)

lemma gen_append_yields: "gen_append (yields xs Stop) g = yields xs g"
  by (induction xs) simp_all

lemma yields_append: "yields (xs @ ys) g = yields xs (yields ys g)"
  by (induction xs) simp_all

lemma results_loop_typed:
  "results_loop (map (\<lambda>fs. result_json (map location_json fs)) results) =
     yields (map finding_of (concat results)) Stop"
  by (induction results)
    (simp_all add: result_json_def ebind_def locations_loop_typed gen_append_yields yields_append)

lemma runs_loop_typed:
  "runs_loop (map (\<lambda>results. run_json (map (\<lambda>fs. result_json (map location_json fs)) results)) runs) =
     yields (map finding_of (concat (map concat runs))) Stop"
  by (induction runs)
    (simp_all add: run_json_def ebind_def results_loop_typed gen_append_yields yields_append)

lemma snyk_results_typed:
  "snyk_results (typed_report runs) = yields (map finding_of (concat (map concat runs))) Stop"
  by (simp add: snyk_results_def typed_report_def report_json_def ebind_def runs_loop_typed)

lemma gen_append_Stop [simp]: "gen_append g Stop = g"
  by (induction g) simp_all

lemma locations_loop_append:
  "locations_loop (xs @ ys) = gen_append (locations_loop xs) (locations_loop ys)"
  by (induction xs) (simp_all split: sum.splits)

lemma location_finding_no_physicalLocation:
  "map_of items ''physicalLocation'' = None \<Longrightarrow>
     location_finding (JObj items) = Inl (KeyError ''physicalLocation'')"
  by (simp add: location_finding_def ebind_def)

lemma snyk_results_malformed_location:
  assumes "location_finding bad = Inl e"
  shows "snyk_results (report_json [run_json [result_json (map location_json good @ bad # rest)]]) =
     yields (map finding_of good) (Raise e)"
proof -
  have "locations_loop (map location_json good @ bad # rest) =
      yields (map finding_of good) (Raise e)"
    using assms by (simp add: locations_loop_append locations_loop_typed gen_append_yields)
  then show ?thesis
    by (simp add: snyk_results_def report_json_def run_json_def result_json_def ebind_def)
qed

lemma gen_append_assoc: "gen_append (gen_append a b) c = gen_append a (gen_append b c)"
  by (induction a) simp_all

lemma gen_append_yields_any: "gen_append (yields xs g) h = yields xs (gen_append g h)"
  by (induction xs) simp_all

lemma results_loop_append:
  "results_loop (xs @ ys) = gen_append (results_loop xs) (results_loop ys)"
  by (induction xs) (simp_all add: gen_append_assoc split: sum.splits)

lemma runs_loop_append:
  "runs_loop (xs @ ys) = gen_append (runs_loop xs) (runs_loop ys)"
  by (induction xs) (simp_all add: gen_append_assoc split: sum.splits)

lemma results_loop_typed_result:
  "results_loop (map typed_result results) = yields (map finding_of (concat results)) Stop"
  using results_loop_typed [of results] by (simp add: typed_result_def [abs_def])

lemma runs_loop_typed_run:
  "runs_loop (map typed_run runs) = yields (map finding_of (concat (map concat runs))) Stop"
  using runs_loop_typed [of runs] by (simp add: typed_run_def [abs_def] typed_result_def [abs_def])

lemma snyk_results_with_run:
  assumes "ebind (subscript run ''results'') iterate = Inl e"
  shows "snyk_results (report_with_run runs_before run runs_after) =
     yields (map finding_of (concat (map concat runs_before))) (Raise e)"
proof -
  have "runs_loop (run # runs_after) = Raise e" using assms by simp
  then have "runs_loop (map typed_run runs_before @ run # runs_after) =
      yields (map finding_of (concat (map concat runs_before))) (Raise e)"
    by (simp add: runs_loop_append runs_loop_typed_run gen_append_yields)
  then show ?thesis
    by (simp add: snyk_results_def report_with_run_def report_json_def ebind_def)
qed

lemma snyk_results_with_result:
  assumes "ebind (subscript result ''locations'') iterate = Inl e"
  shows "snyk_results
       (report_with_result runs_before results_before result results_after runs_after) =
     yields (map finding_of (concat (map concat runs_before) @ concat results_before)) (Raise e)"
proof -
  have "results_loop (result # results_after) = Raise e" using assms by simp
  then have "results_loop (map typed_result results_before @ result # results_after) =
      yields (map finding_of (concat results_before)) (Raise e)"
    by (simp add: results_loop_append results_loop_typed_result gen_append_yields)
  then have "runs_loop
      (run_json (map typed_result results_before @ result # results_after) # runs_after) =
      yields (map finding_of (concat results_before)) (Raise e)"
    by (simp add: run_json_def ebind_def gen_append_yields_any)
  then have "runs_loop (map typed_run runs_before @
      run_json (map typed_result results_before @ result # results_after) # runs_after) =
      yields (map finding_of (concat (map concat runs_before) @ concat results_before)) (Raise e)"
    by (simp add: runs_loop_append runs_loop_typed_run gen_append_yields yields_append)
  then show ?thesis
    by (simp add: snyk_results_def report_with_result_def report_with_run_def report_json_def
        ebind_def)
qed

lemma snyk_results_with_location:
  assumes "location_finding location = Inl e"
  shows "snyk_results
       (report_with_location runs_before results_before locations_before location
          locations_after results_after runs_after) =
     yields (map finding_of
        (concat (map concat runs_before) @ concat results_before @ locations_before)) (Raise e)"
proof -
  have "locations_loop (map location_json locations_before @ location # locations_after) =
      yields (map finding_of locations_before) (Raise e)"
    using assms by (simp add: locations_loop_append locations_loop_typed gen_append_yields)
  then have "results_loop
      (result_json (map location_json locations_before @ location # locations_after) #
       results_after) = yields (map finding_of locations_before) (Raise e)"
    by (simp add: result_json_def ebind_def gen_append_yields_any)
  then have "results_loop (map typed_result results_before @
      result_json (map location_json locations_before @ location # locations_after) #
       results_after) =
      yields (map finding_of (concat results_before @ locations_before)) (Raise e)"
    by (simp add: results_loop_append results_loop_typed_result gen_append_yields yields_append)
  then have "runs_loop (run_json (map typed_result results_before @
      result_json (map location_json locations_before @ location # locations_after) #
       results_after) # runs_after) =
      yields (map finding_of (concat results_before @ locations_before)) (Raise e)"
    by (simp add: run_json_def ebind_def gen_append_yields_any)
  then have "runs_loop (map typed_run runs_before @ run_json (map typed_result results_before @
      result_json (map location_json locations_before @ location # locations_after) #
       results_after) # runs_after) =
      yields (map finding_of
        (concat (map concat runs_before) @ concat results_before @ locations_before)) (Raise e)"
    by (simp add: runs_loop_append runs_loop_typed_run gen_append_yields yields_append)
  then show ?thesis
    by (simp add: snyk_results_def report_with_location_def report_with_result_def
        report_with_run_def report_json_def ebind_def)
qed

lemma location_finding_missing_key:
  "map_of members ''physicalLocation'' = None \<Longrightarrow>
     location_finding (JObj members) = Inl (KeyError ''physicalLocation'')"
  "map_of members ''physicalLocation'' = Some (JObj pl) \<Longrightarrow>
   map_of pl ''artifactLocation'' = None \<Longrightarrow>
     location_finding (JObj members) = Inl (KeyError ''artifactLocation'')"
  "map_of members ''physicalLocation'' = Some (JObj pl) \<Longrightarrow>
   map_of pl ''artifactLocation'' = Some (JObj al) \<Longrightarrow> map_of al ''uri'' = None \<Longrightarrow>
     location_finding (JObj members) = Inl (KeyError ''uri'')"
  "map_of members ''physicalLocation'' = Some (JObj pl) \<Longrightarrow>
   map_of pl ''artifactLocation'' = Some (JObj al) \<Longrightarrow> map_of al ''uri'' = Some uri \<Longrightarrow>
   map_of pl ''region'' = None \<Longrightarrow>
     location_finding (JObj members) = Inl (KeyError ''region'')"
  "map_of members ''physicalLocation'' = Some (JObj pl) \<Longrightarrow>
   map_of pl ''artifactLocation'' = Some (JObj al) \<Longrightarrow> map_of al ''uri'' = Some uri \<Longrightarrow>
   map_of pl ''region'' = Some (JObj rg) \<Longrightarrow> map_of rg ''startLine'' = None \<Longrightarrow>
     location_finding (JObj members) = Inl (KeyError ''startLine'')"
  "map_of members ''physicalLocation'' = Some (JObj pl) \<Longrightarrow>
   map_of pl ''artifactLocation'' = Some (JObj al) \<Longrightarrow> map_of al ''uri'' = Some uri \<Longrightarrow>
   map_of pl ''region'' = Some (JObj rg) \<Longrightarrow> map_of rg ''startLine'' = Some startLine \<Longrightarrow>
   map_of rg ''endLine'' = None \<Longrightarrow>
     location_finding (JObj members) = Inl (KeyError ''endLine'')"
  by (simp_all add: location_finding_def ebind_def)

lemma main_loop_yields_Raise:
  "main_loop commit_files (yields (map finding_of fs) (Raise e)) =
     (if \<forall>(name, start, end)\<in>set fs.
           \<exists>patch_blocks. commit_files name = Some patch_blocks \<and>
             (\<exists>r\<in>set (blocks patch_blocks). fst r \<le> start \<and> end \<le> snd r)
      then Inl e else Inr False)"
proof -
  have pointwise: "(case f of (name, start, end) \<Rightarrow>
            \<exists>patch_blocks. commit_files name = Some patch_blocks \<and>
              (\<exists>r\<in>set (blocks patch_blocks). fst r \<le> start \<and> end \<le> snd r)) \<longleftrightarrow>
       passes commit_files f" for f
  proof -
    obtain name start "end" where f: "f = (name, start, end)" by (cases f)
    show ?thesis unfolding f passes_iff by simp
  qed
  show ?thesis
    unfolding main_loop_yields_typed pointwise by simp
qed

section \<open>The claims about \<^verbatim>\<open>range_exists\<close>\<close>

text \<open>
  C2. For every index and every query pair of ints \<open>(start, end)\<close>, \<^verbatim>\<open>range_exists\<close>
  returns true if and only if one single stored range \<open>r\<close> has \<open>r.start \<le> start\<close> and
  \<open>end \<le> r.end\<close>; on an index without ranges it returns false for every query.
\<close>

theorem range_exists_iff_nested_in_one_range:
  "range_exists self (JInt start) (JInt end) =
     Inr (\<exists>r\<in>set (blocks self). fst r \<le> start \<and> end \<le> snd r) \<and>
   (blocks self = [] \<longrightarrow> range_exists self s e = Inr False)"
  by (simp add: range_exists_def range_exists_loop_ints)

text \<open>
  The theorem at the index [(10, 20)]: a nested query is found, an overlapping one is not;
  two ranges that cover a query only together do not count; the empty index finds nothing.
\<close>

theorem range_exists_iff_nested_in_one_range_witness:
  "range_exists \<lparr>blocks = [(10, 20)]\<rparr> (JInt 12) (JInt 15) = Inr True \<and>
   range_exists \<lparr>blocks = [(10, 20)]\<rparr> (JInt 5) (JInt 15) = Inr False \<and>
   range_exists \<lparr>blocks = [(1, 8), (12, 20)]\<rparr> (JInt 5) (JInt 15) = Inr False \<and>
   blocks \<lparr>blocks = []\<rparr> = [] \<and> range_exists \<lparr>blocks = []\<rparr> (JInt 1) (JInt 1) = Inr False"
  using range_exists_iff_nested_in_one_range [of "\<lparr>blocks = [(10, 20)]\<rparr>" 12 15]
    range_exists_iff_nested_in_one_range [of "\<lparr>blocks = [(10, 20)]\<rparr>" 5 15]
    range_exists_iff_nested_in_one_range [of "\<lparr>blocks = [(1, 8), (12, 20)]\<rparr>" 5 15]
    range_exists_iff_nested_in_one_range [of "\<lparr>blocks = []\<rparr>" 1 1 "JInt 1" "JInt 1"]
  by simp

text \<open>
  C3, as amended. The patch text with the two headers \<^verbatim>\<open>@@ -1,2 +1,3 @@\<close> and
  \<^verbatim>\<open>@@ -10,2 +10,500 @@\<close> yields exactly the ranges (1, 3) and (10, 500); on that index
  the range (10, 500) is contained, and so is the range (2, 3): it is nested in (1, 3).
\<close>

theorem two_hunks_ranges_and_findings:
  "PatchBlocks_init ''@@ -1,2 +1,3 @@\<newline>...\<newline>@@ -10,2 +10,500 @@'' =
     Inr \<lparr>blocks = [(1, 3), (10, 500)]\<rparr> \<and>
   range_exists \<lparr>blocks = [(1, 3), (10, 500)]\<rparr> (JInt 10) (JInt 500) = Inr True \<and>
   range_exists \<lparr>blocks = [(1, 3), (10, 500)]\<rparr> (JInt 2) (JInt 3) = Inr True"
  by code_simp

text \<open>
  C3 as stated says that the range (2, 3) fails containment on that index; the code
  returns true, since \<open>1 \<le> 2\<close> and \<open>3 \<le> 3\<close>.
\<close>

theorem two_hunks_finding_2_3_counterexample:
  "PatchBlocks_init ''@@ -1,2 +1,3 @@\<newline>...\<newline>@@ -10,2 +10,500 @@'' =
     Inr \<lparr>blocks = [(1, 3), (10, 500)]\<rparr> \<and>
   range_exists \<lparr>blocks = [(1, 3), (10, 500)]\<rparr> (JInt 2) (JInt 3) = Inr True"
  by code_simp

section \<open>The claims about the check\<close>

text \<open>
  C4. If the report yields a finding whose file name is not a key of \<open>commit_files\<close>, the
  check returns the boolean false and raises nothing, whatever the findings before it
  (file names that are strings, lines that are ints) and whatever the report holds after
  it. In particular a report of the documented shape with such a finding anywhere among
  its findings is answered with false.
\<close>

theorem missing_file_gives_False:
  "(snyk_results snyk_report =
      yields (map finding_of before) (Yield (JStr name, region) rest) \<and>
    name \<notin> dom commit_files \<longrightarrow>
    main_check commit_files snyk_report = Inr False) \<and>
   ((\<exists>(name, start, end)\<in>set (concat (map concat runs)). name \<notin> dom commit_files) \<longrightarrow>
    main_check commit_files (typed_report runs) = Inr False)"
proof (intro conjI impI)
  assume a: "snyk_results snyk_report =
      yields (map finding_of before) (Yield (JStr name, region) rest) \<and>
    name \<notin> dom commit_files"
  then have "commit_files name = None" by (simp add: domIff)
  then have "main_loop commit_files (Yield (JStr name, region) rest) = Inr False"
    by simp
  then show "main_check commit_files snyk_report = Inr False"
    using a by (simp add: main_check_def main_loop_yields_typed)
next
  assume "\<exists>(name, start, end)\<in>set (concat (map concat runs)). name \<notin> dom commit_files"
  then obtain name start "end" where mem: "(name, start, end) \<in> set (concat (map concat runs))"
    and absent: "name \<notin> dom commit_files"
    by blast
  from absent have "\<not> passes commit_files (name, start, end)"
    by (simp add: passes_def domIff)
  with mem have "\<not> (\<forall>f\<in>set (concat (map concat runs)). passes commit_files f)"
    by blast
  then show "main_check commit_files (typed_report runs) = Inr False"
    unfolding main_check_def snyk_results_typed main_loop_yields_typed by simp
qed

text \<open>
  The theorem at a report whose first finding passes, whose second names a file that is
  not in the commit and whose third location is malformed, and at a report of the
  documented shape with the same two findings.
\<close>

theorem missing_file_gives_False_witness:
  "snyk_results
     (report_json [run_json [result_json
        [location_json (''a.py'', 1, 2), location_json (''b.py'', 5, 6), JObj []]]]) =
     yields (map finding_of [(''a.py'', 1, 2)])
       (Yield (JStr ''b.py'', (JInt 5, JInt 6)) (Raise (KeyError ''physicalLocation''))) \<and>
   ''b.py'' \<notin> dom [''a.py'' \<mapsto> \<lparr>blocks = [(1, 3)]\<rparr>] \<and>
   main_check [''a.py'' \<mapsto> \<lparr>blocks = [(1, 3)]\<rparr>]
     (report_json [run_json [result_json
        [location_json (''a.py'', 1, 2), location_json (''b.py'', 5, 6), JObj []]]]) = Inr False \<and>
   (''b.py'', 5::int, 6::int) \<in>
     set (concat (map concat [[[(''a.py'', 1, 2)], [(''b.py'', 5, 6)]]])) \<and>
   main_check [''a.py'' \<mapsto> \<lparr>blocks = [(1, 3)]\<rparr>]
     (typed_report [[[(''a.py'', 1, 2)], [(''b.py'', 5, 6)]]]) = Inr False"
proof -
  have gen: "snyk_results
     (report_json [run_json [result_json
        [location_json (''a.py'', 1, 2), location_json (''b.py'', 5, 6), JObj []]]]) =
     yields (map finding_of [(''a.py'', 1, 2)])
       (Yield (JStr ''b.py'', (JInt 5, JInt 6)) (Raise (KeyError ''physicalLocation'')))"
    by code_simp
  have absent: "''b.py'' \<notin> dom [''a.py'' \<mapsto> \<lparr>blocks = [(1, 3)]\<rparr>]"
    by simp
  have mem: "(''b.py'', 5::int, 6::int) \<in>
      set (concat (map concat [[[(''a.py'', 1, 2)], [(''b.py'', 5, 6)]]]))"
    by simp
  from mem absent
  have some: "\<exists>(name, start, end)\<in>set (concat (map concat [[[(''a.py'', 1::int, 2::int)], [(''b.py'', 5, 6)]]])).
      name \<notin> dom [''a.py'' \<mapsto> \<lparr>blocks = [(1, 3)]\<rparr>]"
    by blast
  note missing = missing_file_gives_False
    [of _ _ _ _ _ "[''a.py'' \<mapsto> \<lparr>blocks = [(1, 3)]\<rparr>]"
      "[[[(''a.py'', 1, 2)], [(''b.py'', 5, 6)]]]"]
  from missing gen absent
  have "main_check [''a.py'' \<mapsto> \<lparr>blocks = [(1, 3)]\<rparr>]
     (report_json [run_json [result_json
        [location_json (''a.py'', 1, 2), location_json (''b.py'', 5, 6), JObj []]]]) = Inr False"
    by blast
  moreover from missing some
  have "main_check [''a.py'' \<mapsto> \<lparr>blocks = [(1, 3)]\<rparr>]
     (typed_report [[[(''a.py'', 1, 2)], [(''b.py'', 5, 6)]]]) = Inr False"
    by blast
  ultimately show ?thesis using gen absent mem by blast
qed

text \<open>
  C5. For every \<open>commit_files\<close>, a report that yields no finding makes the check return
  true, and so does a report all of whose findings name a file of the commit and have
  their range nested in one stored range of that file; the report with an empty list of
  runs is such a report.
\<close>

theorem no_failing_finding_gives_True:
  "(snyk_results snyk_report = Stop \<longrightarrow> main_check commit_files snyk_report = Inr True) \<and>
   (snyk_results snyk_report = yields (map finding_of fs) Stop \<and>
    (\<forall>(name, start, end)\<in>set fs.
       \<exists>patch_blocks. commit_files name = Some patch_blocks \<and>
         (\<exists>r\<in>set (blocks patch_blocks). fst r \<le> start \<and> end \<le> snd r)) \<longrightarrow>
    main_check commit_files snyk_report = Inr True) \<and>
   main_check commit_files (report_json []) = Inr True"
proof (intro conjI impI)
  assume "snyk_results snyk_report = Stop"
  then show "main_check commit_files snyk_report = Inr True"
    by (simp add: main_check_def)
next
  assume a: "snyk_results snyk_report = yields (map finding_of fs) Stop \<and>
    (\<forall>(name, start, end)\<in>set fs.
       \<exists>patch_blocks. commit_files name = Some patch_blocks \<and>
         (\<exists>r\<in>set (blocks patch_blocks). fst r \<le> start \<and> end \<le> snd r))"
  have "passes commit_files f" if "f \<in> set fs" for f
  proof -
    obtain name start "end" where f: "f = (name, start, end)" by (cases f)
    show ?thesis using a that unfolding f passes_iff by blast
  qed
  then have "\<forall>f\<in>set fs. passes commit_files f" by blast
  then show "main_check commit_files snyk_report = Inr True"
    using a by (simp add: main_check_def main_loop_yields_typed)
next
  show "main_check commit_files (report_json []) = Inr True"
    by (simp add: main_check_def snyk_results_def report_json_def ebind_def)
qed

text \<open>The theorem at a commit with one file, for a report with one finding and for one with none.\<close>

theorem no_failing_finding_gives_True_witness:
  "snyk_results (report_json []) = Stop \<and>
   main_check [''a.py'' \<mapsto> \<lparr>blocks = [(1, 3)]\<rparr>] (report_json []) = Inr True \<and>
   snyk_results (report_json [run_json [result_json [location_json (''a.py'', 2, 3)]]]) =
     yields (map finding_of [(''a.py'', 2, 3)]) Stop \<and>
   [''a.py'' \<mapsto> \<lparr>blocks = [(1, 3)]\<rparr>] ''a.py'' =
     Some (\<lparr>blocks = [(1, 3)]\<rparr>) \<and>
   blocks (\<lparr>blocks = [(1, 3)]\<rparr>) = [(1, 3)] \<and> (1::int) \<le> 2 \<and> (3::int) \<le> 3 \<and>
   main_check [''a.py'' \<mapsto> \<lparr>blocks = [(1, 3)]\<rparr>]
     (report_json [run_json [result_json [location_json (''a.py'', 2, 3)]]]) = Inr True"
proof -
  have none: "snyk_results (report_json []) = Stop"
    by code_simp
  have gen: "snyk_results (report_json [run_json [result_json [location_json (''a.py'', 2, 3)]]]) =
     yields (map finding_of [(''a.py'', 2, 3)]) Stop"
    by code_simp
  have stored: "blocks (\<lparr>blocks = [(1, 3)]\<rparr>) = [(1, 3)]"
    by code_simp
  have ok: "\<forall>(name, start, end)\<in>set [(''a.py'', 2, 3)].
       \<exists>patch_blocks. [''a.py'' \<mapsto> \<lparr>blocks = [(1, 3)]\<rparr>] name = Some patch_blocks \<and>
         (\<exists>r\<in>set (blocks patch_blocks). fst r \<le> start \<and> end \<le> snd r)"
    by (simp add: stored)
  show ?thesis
    using no_failing_finding_gives_True
        [of "report_json []" "[''a.py'' \<mapsto> \<lparr>blocks = [(1, 3)]\<rparr>]"]
      no_failing_finding_gives_True
        [of "report_json [run_json [result_json [location_json (''a.py'', 2, 3)]]]"
          "[''a.py'' \<mapsto> \<lparr>blocks = [(1, 3)]\<rparr>]" "[(''a.py'', 2, 3)]"]
      none gen ok stored
    by simp
qed

text \<open>
  C6. For every \<open>commit_files\<close> and every finite sequence of findings, the boolean the loop
  returns is the same for every permutation of the sequence: it is false exactly when at
  least one finding fails, by a file that is not in the commit or by a range that no
  stored range of its file nests. The check of a report of the documented shape is this
  loop over the findings of the report.
\<close>

theorem findings_order_irrelevant:
  "(mset fs = mset fs' \<longrightarrow>
      main_loop commit_files (yields (map finding_of fs) Stop) =
      main_loop commit_files (yields (map finding_of fs') Stop)) \<and>
   main_loop commit_files (yields (map finding_of fs) Stop) =
     Inr (\<not> (\<exists>(name, start, end)\<in>set fs.
        case commit_files name of
          None \<Rightarrow> True
        | Some patch_blocks \<Rightarrow>
            \<not> (\<exists>r\<in>set (blocks patch_blocks). fst r \<le> start \<and> end \<le> snd r))) \<and>
   main_check commit_files (typed_report runs) =
     main_loop commit_files (yields (map finding_of (concat (map concat runs))) Stop)"
proof (intro conjI impI)
  show "main_check commit_files (typed_report runs) =
     main_loop commit_files (yields (map finding_of (concat (map concat runs))) Stop)"
    by (simp add: main_check_def snyk_results_typed)
next
  assume "mset fs = mset fs'"
  then have "set fs = set fs'" by (rule mset_eq_setD)
  then show "main_loop commit_files (yields (map finding_of fs) Stop) =
      main_loop commit_files (yields (map finding_of fs') Stop)"
    by (simp add: main_loop_yields_typed)
next
  let ?fails = "\<lambda>(name, start, end).
        case commit_files name of
          None \<Rightarrow> True
        | Some patch_blocks \<Rightarrow>
            \<not> (\<exists>r\<in>set (blocks patch_blocks). fst r \<le> start \<and> end \<le> snd r)"
  have pointwise: "?fails f \<longleftrightarrow> \<not> passes commit_files f" for f
  proof -
    obtain name start "end" where f: "f = (name, start, end)" by (cases f)
    show ?thesis unfolding f fails_iff by simp
  qed
  have "(\<forall>f\<in>set fs. passes commit_files f) \<longleftrightarrow> \<not> (\<exists>f\<in>set fs. ?fails f)"
    unfolding pointwise by blast
  then show "main_loop commit_files (yields (map finding_of fs) Stop) =
     Inr (\<not> (\<exists>(name, start, end)\<in>set fs.
        case commit_files name of
          None \<Rightarrow> True
        | Some patch_blocks \<Rightarrow>
            \<not> (\<exists>r\<in>set (blocks patch_blocks). fst r \<le> start \<and> end \<le> snd r)))"
    by (simp only: main_loop_yields_typed main_loop.simps if_distrib [of Inr, symmetric]) simp
qed

text \<open>The theorem at two findings, one passing and one of a missing file, in both orders.\<close>

theorem findings_order_irrelevant_witness:
  "mset [(''a.py'', 2::int, 3::int), (''b.py'', 1, 1)] =
     mset [(''b.py'', 1, 1), (''a.py'', 2, 3)] \<and>
   main_loop [''a.py'' \<mapsto> \<lparr>blocks = [(1, 3)]\<rparr>]
     (yields (map finding_of [(''a.py'', 2, 3), (''b.py'', 1, 1)]) Stop) =
   main_loop [''a.py'' \<mapsto> \<lparr>blocks = [(1, 3)]\<rparr>]
     (yields (map finding_of [(''b.py'', 1, 1), (''a.py'', 2, 3)]) Stop) \<and>
   main_loop [''a.py'' \<mapsto> \<lparr>blocks = [(1, 3)]\<rparr>]
     (yields (map finding_of [(''a.py'', 2, 3), (''b.py'', 1, 1)]) Stop) = Inr False"
proof -
  have perm: "mset [(''a.py'', 2::int, 3::int), (''b.py'', 1, 1)] =
      mset [(''b.py'', 1, 1), (''a.py'', 2, 3)]"
    by simp
  note order = findings_order_irrelevant
    [of "[(''a.py'', 2, 3), (''b.py'', 1, 1)]" "[(''b.py'', 1, 1), (''a.py'', 2, 3)]"
      "[''a.py'' \<mapsto> \<lparr>blocks = [(1, 3)]\<rparr>]" "[]"]
  from order perm have same: "main_loop [''a.py'' \<mapsto> \<lparr>blocks = [(1, 3)]\<rparr>]
     (yields (map finding_of [(''a.py'', 2, 3), (''b.py'', 1, 1)]) Stop) =
   main_loop [''a.py'' \<mapsto> \<lparr>blocks = [(1, 3)]\<rparr>]
     (yields (map finding_of [(''b.py'', 1, 1), (''a.py'', 2, 3)]) Stop)"
    by blast
  from order [THEN conjunct2, THEN conjunct1]
  have "main_loop [''a.py'' \<mapsto> \<lparr>blocks = [(1, 3)]\<rparr>]
     (yields (map finding_of [(''a.py'', 2, 3), (''b.py'', 1, 1)]) Stop) = Inr False"
    by simp
  with same perm show ?thesis by blast
qed

text \<open>
  C7, as amended. The lookups of \<^verbatim>\<open>snyk_results\<close> are made one by one while the loop of
  \<^verbatim>\<open>main\<close> asks for the next finding. A report object without the key \<^verbatim>\<open>runs\<close> makes the
  check raise \<^verbatim>\<open>KeyError\<close> instead of returning a boolean, for every commit. A lookup that
  fails later in the report makes the check raise if all the findings yielded before it
  pass; if one of them fails, the check has returned false before the lookup is made.
  This holds for each of the keys that \<^verbatim>\<open>snyk_results\<close> looks up: a run without
  \<^verbatim>\<open>results\<close>, a result without \<^verbatim>\<open>locations\<close> and a location without
  \<^verbatim>\<open>physicalLocation\<close>, \<^verbatim>\<open>artifactLocation\<close>, \<^verbatim>\<open>uri\<close>, \<^verbatim>\<open>region\<close>, \<^verbatim>\<open>startLine\<close> or
  \<^verbatim>\<open>endLine\<close>, anywhere in a report that has the documented shape before that place, make
  the check raise the \<^verbatim>\<open>KeyError\<close> of that key exactly when all the findings before that
  place pass, and return false otherwise.
\<close>

theorem malformed_report_raises_when_reached:
  "(map_of items ''runs'' = None \<longrightarrow>
      main_check commit_files (JObj items) = Inl (KeyError ''runs'')) \<and>
   (snyk_results snyk_report = yields fs (Raise e) \<and>
    main_loop commit_files (yields fs Stop) = Inr True \<longrightarrow>
      main_check commit_files snyk_report = Inl e) \<and>
   (snyk_results snyk_report = yields fs (Raise e) \<and>
    main_loop commit_files (yields fs Stop) = Inr False \<longrightarrow>
      main_check commit_files snyk_report = Inr False) \<and>
   (map_of members ''physicalLocation'' = None \<longrightarrow>
      main_check commit_files
        (report_json [run_json [result_json (map location_json good @ JObj members # rest)]]) =
      (if \<forall>(name, start, end)\<in>set good.
            \<exists>patch_blocks. commit_files name = Some patch_blocks \<and>
              (\<exists>r\<in>set (blocks patch_blocks). fst r \<le> start \<and> end \<le> snd r)
       then Inl (KeyError ''physicalLocation'') else Inr False)) \<and>
   main_loop commit_files (yields (map finding_of before) (Raise e)) =
     (if \<forall>(name, start, end)\<in>set before.
           \<exists>patch_blocks. commit_files name = Some patch_blocks \<and>
             (\<exists>r\<in>set (blocks patch_blocks). fst r \<le> start \<and> end \<le> snd r)
      then Inl e else Inr False) \<and>
   (map_of members ''results'' = None \<longrightarrow>
     main_check commit_files (report_with_run runs_before (JObj members) runs_after) =
     main_loop commit_files
       (yields (map finding_of (concat (map concat runs_before))) (Raise (KeyError ''results'')))) \<and>
   (map_of members ''locations'' = None \<longrightarrow>
     main_check commit_files
       (report_with_result runs_before results_before (JObj members) results_after runs_after) =
     main_loop commit_files
       (yields (map finding_of (concat (map concat runs_before) @ concat results_before))
          (Raise (KeyError ''locations'')))) \<and>
   (map_of members ''physicalLocation'' = None \<longrightarrow>
     main_check commit_files
       (report_with_location runs_before results_before locations_before (JObj members)
          locations_after results_after runs_after) =
     main_loop commit_files
       (yields (map finding_of
          (concat (map concat runs_before) @ concat results_before @ locations_before))
          (Raise (KeyError ''physicalLocation'')))) \<and>
   (map_of members ''physicalLocation'' = Some (JObj pl) \<and>
    map_of pl ''artifactLocation'' = None \<longrightarrow>
     main_check commit_files
       (report_with_location runs_before results_before locations_before (JObj members)
          locations_after results_after runs_after) =
     main_loop commit_files
       (yields (map finding_of
          (concat (map concat runs_before) @ concat results_before @ locations_before))
          (Raise (KeyError ''artifactLocation'')))) \<and>
   (map_of members ''physicalLocation'' = Some (JObj pl) \<and>
    map_of pl ''artifactLocation'' = Some (JObj al) \<and>
    map_of al ''uri'' = None \<longrightarrow>
     main_check commit_files
       (report_with_location runs_before results_before locations_before (JObj members)
          locations_after results_after runs_after) =
     main_loop commit_files
       (yields (map finding_of
          (concat (map concat runs_before) @ concat results_before @ locations_before))
          (Raise (KeyError ''uri'')))) \<and>
   (map_of members ''physicalLocation'' = Some (JObj pl) \<and>
    map_of pl ''artifactLocation'' = Some (JObj al) \<and>
    map_of al ''uri'' = Some uri \<and>
    map_of pl ''region'' = None \<longrightarrow>
     main_check commit_files
       (report_with_location runs_before results_before locations_before (JObj members)
          locations_after results_after runs_after) =
     main_loop commit_files
       (yields (map finding_of
          (concat (map concat runs_before) @ concat results_before @ locations_before))
          (Raise (KeyError ''region'')))) \<and>
   (map_of members ''physicalLocation'' = Some (JObj pl) \<and>
    map_of pl ''artifactLocation'' = Some (JObj al) \<and>
    map_of al ''uri'' = Some uri \<and>
    map_of pl ''region'' = Some (JObj rg) \<and>
    map_of rg ''startLine'' = None \<longrightarrow>
     main_check commit_files
       (report_with_location runs_before results_before locations_before (JObj members)
          locations_after results_after runs_after) =
     main_loop commit_files
       (yields (map finding_of
          (concat (map concat runs_before) @ concat results_before @ locations_before))
          (Raise (KeyError ''startLine'')))) \<and>
   (map_of members ''physicalLocation'' = Some (JObj pl) \<and>
    map_of pl ''artifactLocation'' = Some (JObj al) \<and>
    map_of al ''uri'' = Some uri \<and>
    map_of pl ''region'' = Some (JObj rg) \<and>
    map_of rg ''startLine'' = Some startLine \<and>
    map_of rg ''endLine'' = None \<longrightarrow>
     main_check commit_files
       (report_with_location runs_before results_before locations_before (JObj members)
          locations_after results_after runs_after) =
     main_loop commit_files
       (yields (map finding_of
          (concat (map concat runs_before) @ concat results_before @ locations_before))
          (Raise (KeyError ''endLine''))))"
proof (intro conjI impI)
  assume "map_of items ''runs'' = None"
  then show "main_check commit_files (JObj items) = Inl (KeyError ''runs'')"
    by (simp add: main_check_def snyk_results_no_runs)
next
  assume "snyk_results snyk_report = yields fs (Raise e) \<and>
    main_loop commit_files (yields fs Stop) = Inr True"
  then show "main_check commit_files snyk_report = Inl e"
    using main_loop_yields_True [of commit_files fs "Raise e"]
    by (simp add: main_check_def)
next
  assume "snyk_results snyk_report = yields fs (Raise e) \<and>
    main_loop commit_files (yields fs Stop) = Inr False"
  then show "main_check commit_files snyk_report = Inr False"
    using main_loop_yields_False [of commit_files fs "Raise e"]
    by (simp add: main_check_def)
next
  assume "map_of members ''physicalLocation'' = None"
  then have bad: "location_finding (JObj members) = Inl (KeyError ''physicalLocation'')"
    by (rule location_finding_no_physicalLocation)
  have pointwise: "(case f of (name, start, end) \<Rightarrow>
            \<exists>patch_blocks. commit_files name = Some patch_blocks \<and>
              (\<exists>r\<in>set (blocks patch_blocks). fst r \<le> start \<and> end \<le> snd r)) \<longleftrightarrow>
       passes commit_files f" for f
  proof -
    obtain name start "end" where f: "f = (name, start, end)" by (cases f)
    show ?thesis unfolding f passes_iff by simp
  qed
  show "main_check commit_files
        (report_json [run_json [result_json (map location_json good @ JObj members # rest)]]) =
      (if \<forall>(name, start, end)\<in>set good.
            \<exists>patch_blocks. commit_files name = Some patch_blocks \<and>
              (\<exists>r\<in>set (blocks patch_blocks). fst r \<le> start \<and> end \<le> snd r)
       then Inl (KeyError ''physicalLocation'') else Inr False)"
    unfolding main_check_def snyk_results_malformed_location [OF bad] main_loop_yields_typed
      pointwise
    by simp
next
  show "main_loop commit_files (yields (map finding_of before) (Raise e)) =
     (if \<forall>(name, start, end)\<in>set before.
           \<exists>patch_blocks. commit_files name = Some patch_blocks \<and>
             (\<exists>r\<in>set (blocks patch_blocks). fst r \<le> start \<and> end \<le> snd r)
      then Inl e else Inr False)"
    by (rule main_loop_yields_Raise)
next
  assume "map_of members ''results'' = None"
  then have "ebind (subscript (JObj members) ''results'') iterate = Inl (KeyError ''results'')"
    by (simp add: ebind_def)
  then show "main_check commit_files (report_with_run runs_before (JObj members) runs_after) =
     main_loop commit_files
       (yields (map finding_of (concat (map concat runs_before))) (Raise (KeyError ''results'')))"
    by (simp add: main_check_def snyk_results_with_run)
next
  assume "map_of members ''locations'' = None"
  then have "ebind (subscript (JObj members) ''locations'') iterate = Inl (KeyError ''locations'')"
    by (simp add: ebind_def)
  then show "main_check commit_files
       (report_with_result runs_before results_before (JObj members) results_after runs_after) =
     main_loop commit_files
       (yields (map finding_of (concat (map concat runs_before) @ concat results_before))
          (Raise (KeyError ''locations'')))"
    by (simp add: main_check_def snyk_results_with_result)
next
  assume "map_of members ''physicalLocation'' = None"
  then have "location_finding (JObj members) = Inl (KeyError ''physicalLocation'')"
    by (simp add: location_finding_missing_key)
  then show "main_check commit_files
       (report_with_location runs_before results_before locations_before (JObj members)
          locations_after results_after runs_after) =
     main_loop commit_files
       (yields (map finding_of
          (concat (map concat runs_before) @ concat results_before @ locations_before))
          (Raise (KeyError ''physicalLocation'')))"
    by (simp add: main_check_def snyk_results_with_location)
next
  assume "map_of members ''physicalLocation'' = Some (JObj pl) \<and>
    map_of pl ''artifactLocation'' = None"
  then have "location_finding (JObj members) = Inl (KeyError ''artifactLocation'')"
    by (simp add: location_finding_missing_key)
  then show "main_check commit_files
       (report_with_location runs_before results_before locations_before (JObj members)
          locations_after results_after runs_after) =
     main_loop commit_files
       (yields (map finding_of
          (concat (map concat runs_before) @ concat results_before @ locations_before))
          (Raise (KeyError ''artifactLocation'')))"
    by (simp add: main_check_def snyk_results_with_location)
next
  assume "map_of members ''physicalLocation'' = Some (JObj pl) \<and>
    map_of pl ''artifactLocation'' = Some (JObj al) \<and>
    map_of al ''uri'' = None"
  then have "location_finding (JObj members) = Inl (KeyError ''uri'')"
    by (simp add: location_finding_missing_key)
  then show "main_check commit_files
       (report_with_location runs_before results_before locations_before (JObj members)
          locations_after results_after runs_after) =
     main_loop commit_files
       (yields (map finding_of
          (concat (map concat runs_before) @ concat results_before @ locations_before))
          (Raise (KeyError ''uri'')))"
    by (simp add: main_check_def snyk_results_with_location)
next
  assume "map_of members ''physicalLocation'' = Some (JObj pl) \<and>
    map_of pl ''artifactLocation'' = Some (JObj al) \<and>
    map_of al ''uri'' = Some uri \<and>
    map_of pl ''region'' = None"
  then have "location_finding (JObj members) = Inl (KeyError ''region'')"
    by (simp add: location_finding_missing_key)
  then show "main_check commit_files
       (report_with_location runs_before results_before locations_before (JObj members)
          locations_after results_after runs_after) =
     main_loop commit_files
       (yields (map finding_of
          (concat (map concat runs_before) @ concat results_before @ locations_before))
          (Raise (KeyError ''region'')))"
    by (simp add: main_check_def snyk_results_with_location)
next
  assume "map_of members ''physicalLocation'' = Some (JObj pl) \<and>
    map_of pl ''artifactLocation'' = Some (JObj al) \<and>
    map_of al ''uri'' = Some uri \<and>
    map_of pl ''region'' = Some (JObj rg) \<and>
    map_of rg ''startLine'' = None"
  then have "location_finding (JObj members) = Inl (KeyError ''startLine'')"
    by (simp add: location_finding_missing_key)
  then show "main_check commit_files
       (report_with_location runs_before results_before locations_before (JObj members)
          locations_after results_after runs_after) =
     main_loop commit_files
       (yields (map finding_of
          (concat (map concat runs_before) @ concat results_before @ locations_before))
          (Raise (KeyError ''startLine'')))"
    by (simp add: main_check_def snyk_results_with_location)
next
  assume "map_of members ''physicalLocation'' = Some (JObj pl) \<and>
    map_of pl ''artifactLocation'' = Some (JObj al) \<and>
    map_of al ''uri'' = Some uri \<and>
    map_of pl ''region'' = Some (JObj rg) \<and>
    map_of rg ''startLine'' = Some startLine \<and>
    map_of rg ''endLine'' = None"
  then have "location_finding (JObj members) = Inl (KeyError ''endLine'')"
    by (simp add: location_finding_missing_key)
  then show "main_check commit_files
       (report_with_location runs_before results_before locations_before (JObj members)
          locations_after results_after runs_after) =
     main_loop commit_files
       (yields (map finding_of
          (concat (map concat runs_before) @ concat results_before @ locations_before))
          (Raise (KeyError ''endLine'')))"
    by (simp add: main_check_def snyk_results_with_location)
qed

text \<open>
  The theorem at a commit with one file and a report whose first run holds one passing
  finding and whose next run, result or location lacks a key, once for each key; and at
  the same report for a commit without the file.
\<close>

theorem malformed_report_raises_when_reached_witness:
  "map_of [] ''runs'' = (None :: json option) \<and>
   main_check [''a.py'' \<mapsto> \<lparr>blocks = [(1, 3)]\<rparr>] (JObj []) = Inl (KeyError ''runs'') \<and>
   main_check [''a.py'' \<mapsto> \<lparr>blocks = [(1, 3)]\<rparr>] (report_with_run [[[(''a.py'', 2, 3)]]] (JObj []) []) = Inl (KeyError ''results'') \<and>
   main_check [''a.py'' \<mapsto> \<lparr>blocks = [(1, 3)]\<rparr>] (report_with_result [[[(''a.py'', 2, 3)]]] [] (JObj []) [] []) = Inl (KeyError ''locations'') \<and>
   main_check [''a.py'' \<mapsto> \<lparr>blocks = [(1, 3)]\<rparr>]
     (report_with_location [[[(''a.py'', 2, 3)]]] [] [] (JObj []) [] [] []) =
     Inl (KeyError ''physicalLocation'') \<and>
   main_check [''a.py'' \<mapsto> \<lparr>blocks = [(1, 3)]\<rparr>]
     (report_with_location [[[(''a.py'', 2, 3)]]] [] [] (JObj [(''physicalLocation'', JObj [])]) [] [] []) =
     Inl (KeyError ''artifactLocation'') \<and>
   main_check [''a.py'' \<mapsto> \<lparr>blocks = [(1, 3)]\<rparr>]
     (report_with_location [[[(''a.py'', 2, 3)]]] [] [] (JObj [(''physicalLocation'', JObj [(''artifactLocation'', JObj [])])]) [] [] []) =
     Inl (KeyError ''uri'') \<and>
   main_check [''a.py'' \<mapsto> \<lparr>blocks = [(1, 3)]\<rparr>]
     (report_with_location [[[(''a.py'', 2, 3)]]] [] [] (JObj [(''physicalLocation'', JObj [(''artifactLocation'', JObj [(''uri'', JStr ''a.py'')])])]) [] [] []) =
     Inl (KeyError ''region'') \<and>
   main_check [''a.py'' \<mapsto> \<lparr>blocks = [(1, 3)]\<rparr>]
     (report_with_location [[[(''a.py'', 2, 3)]]] [] [] (JObj [(''physicalLocation'', JObj [(''artifactLocation'', JObj [(''uri'', JStr ''a.py'')]), (''region'', JObj [])])]) [] [] []) =
     Inl (KeyError ''startLine'') \<and>
   main_check [''a.py'' \<mapsto> \<lparr>blocks = [(1, 3)]\<rparr>]
     (report_with_location [[[(''a.py'', 2, 3)]]] [] [] (JObj [(''physicalLocation'', JObj [(''artifactLocation'', JObj [(''uri'', JStr ''a.py'')]), (''region'', JObj [(''startLine'', JInt 2)])])]) [] [] []) =
     Inl (KeyError ''endLine'') \<and>
   main_check Map.empty (report_with_location [[[(''a.py'', 2, 3)]]] [] [] (JObj []) [] [] []) = Inr False \<and>
   snyk_results (report_json [run_json [result_json [location_json (''a.py'', 2, 3), JObj []]]]) =
     yields [finding_of (''a.py'', 2, 3)] (Raise (KeyError ''physicalLocation'')) \<and>
   main_loop [''a.py'' \<mapsto> \<lparr>blocks = [(1, 3)]\<rparr>] (yields [finding_of (''a.py'', 2, 3)] Stop) = Inr True \<and>
   main_check [''a.py'' \<mapsto> \<lparr>blocks = [(1, 3)]\<rparr>]
     (report_json [run_json [result_json [location_json (''a.py'', 2, 3), JObj []]]]) =
     Inl (KeyError ''physicalLocation'') \<and>
   main_loop Map.empty (yields [finding_of (''a.py'', 2, 3)] Stop) = Inr False \<and>
   main_check Map.empty
     (report_json [run_json [result_json [location_json (''a.py'', 2, 3), JObj []]]]) = Inr False \<and>
   main_check [''a.py'' \<mapsto> \<lparr>blocks = [(1, 3)]\<rparr>]
     (report_json [run_json [result_json
        (map location_json [(''a.py'', 2, 3)] @ JObj [] # [location_json (''b.py'', 1, 1)])]]) =
     Inl (KeyError ''physicalLocation'')"
proof -
  have k_runs: "main_check [''a.py'' \<mapsto> \<lparr>blocks = [(1, 3)]\<rparr>] (JObj []) = Inl (KeyError ''runs'')"
    using malformed_report_raises_when_reached [where items = "[]" and commit_files = "[''a.py'' \<mapsto> \<lparr>blocks = [(1, 3)]\<rparr>]", THEN conjunct1] by simp
  have k_results: "main_check [''a.py'' \<mapsto> \<lparr>blocks = [(1, 3)]\<rparr>] (report_with_run [[[(''a.py'', 2, 3)]]] (JObj []) []) = Inl (KeyError ''results'')"
    using malformed_report_raises_when_reached [where members = "[]" and commit_files = "[''a.py'' \<mapsto> \<lparr>blocks = [(1, 3)]\<rparr>]" and runs_before = "[[[(''a.py'', 2, 3)]]]" and runs_after = "[]", THEN conjunct2, THEN conjunct2, THEN conjunct2, THEN conjunct2, THEN conjunct2, THEN conjunct1]
    by (simp add: main_loop_Yield_finding_of passes_def)
  have k_locations: "main_check [''a.py'' \<mapsto> \<lparr>blocks = [(1, 3)]\<rparr>] (report_with_result [[[(''a.py'', 2, 3)]]] [] (JObj []) [] []) = Inl (KeyError ''locations'')"
    using malformed_report_raises_when_reached [where members = "[]" and commit_files = "[''a.py'' \<mapsto> \<lparr>blocks = [(1, 3)]\<rparr>]" and runs_before = "[[[(''a.py'', 2, 3)]]]" and results_before = "[]" and results_after = "[]" and runs_after = "[]", THEN conjunct2, THEN conjunct2, THEN conjunct2, THEN conjunct2, THEN conjunct2, THEN conjunct2, THEN conjunct1]
    by (simp add: main_loop_Yield_finding_of passes_def)
  have k_physicalLocation: "main_check [''a.py'' \<mapsto> \<lparr>blocks = [(1, 3)]\<rparr>]
     (report_with_location [[[(''a.py'', 2, 3)]]] [] [] (JObj []) [] [] []) =
     Inl (KeyError ''physicalLocation'')"
    using malformed_report_raises_when_reached
      [where members = "[]" and commit_files = "[''a.py'' \<mapsto> \<lparr>blocks = [(1, 3)]\<rparr>]" and runs_before = "[[[(''a.py'', 2, 3)]]]" and results_before = "[]" and locations_before = "[]" and locations_after = "[]" and results_after = "[]" and runs_after = "[]", THEN conjunct2, THEN conjunct2, THEN conjunct2, THEN conjunct2, THEN conjunct2, THEN conjunct2, THEN conjunct2, THEN conjunct1]
    by (simp add: main_loop_Yield_finding_of passes_def)
  have k_artifactLocation: "main_check [''a.py'' \<mapsto> \<lparr>blocks = [(1, 3)]\<rparr>]
     (report_with_location [[[(''a.py'', 2, 3)]]] [] [] (JObj [(''physicalLocation'', JObj [])]) [] [] []) =
     Inl (KeyError ''artifactLocation'')"
    using malformed_report_raises_when_reached
      [where members = "[(''physicalLocation'', JObj [])]" and commit_files = "[''a.py'' \<mapsto> \<lparr>blocks = [(1, 3)]\<rparr>]" and runs_before = "[[[(''a.py'', 2, 3)]]]" and results_before = "[]" and locations_before = "[]" and locations_after = "[]" and results_after = "[]" and runs_after = "[]" and pl = "[]", THEN conjunct2, THEN conjunct2, THEN conjunct2, THEN conjunct2, THEN conjunct2, THEN conjunct2, THEN conjunct2, THEN conjunct2, THEN conjunct1]
    by (simp add: main_loop_Yield_finding_of passes_def)
  have k_uri: "main_check [''a.py'' \<mapsto> \<lparr>blocks = [(1, 3)]\<rparr>]
     (report_with_location [[[(''a.py'', 2, 3)]]] [] [] (JObj [(''physicalLocation'', JObj [(''artifactLocation'', JObj [])])]) [] [] []) =
     Inl (KeyError ''uri'')"
    using malformed_report_raises_when_reached
      [where members = "[(''physicalLocation'', JObj [(''artifactLocation'', JObj [])])]" and commit_files = "[''a.py'' \<mapsto> \<lparr>blocks = [(1, 3)]\<rparr>]" and runs_before = "[[[(''a.py'', 2, 3)]]]" and results_before = "[]" and locations_before = "[]" and locations_after = "[]" and results_after = "[]" and runs_after = "[]" and pl = "[(''artifactLocation'', JObj [])]" and al = "[]", THEN conjunct2, THEN conjunct2, THEN conjunct2, THEN conjunct2, THEN conjunct2, THEN conjunct2, THEN conjunct2, THEN conjunct2, THEN conjunct2, THEN conjunct1]
    by (simp add: main_loop_Yield_finding_of passes_def)
  have k_region: "main_check [''a.py'' \<mapsto> \<lparr>blocks = [(1, 3)]\<rparr>]
     (report_with_location [[[(''a.py'', 2, 3)]]] [] [] (JObj [(''physicalLocation'', JObj [(''artifactLocation'', JObj [(''uri'', JStr ''a.py'')])])]) [] [] []) =
     Inl (KeyError ''region'')"
    using malformed_report_raises_when_reached
      [where members = "[(''physicalLocation'', JObj [(''artifactLocation'', JObj [(''uri'', JStr ''a.py'')])])]" and commit_files = "[''a.py'' \<mapsto> \<lparr>blocks = [(1, 3)]\<rparr>]" and runs_before = "[[[(''a.py'', 2, 3)]]]" and results_before = "[]" and locations_before = "[]" and locations_after = "[]" and results_after = "[]" and runs_after = "[]" and pl = "[(''artifactLocation'', JObj [(''uri'', JStr ''a.py'')])]" and al = "[(''uri'', JStr ''a.py'')]" and uri = "JStr ''a.py''", THEN conjunct2, THEN conjunct2, THEN conjunct2, THEN conjunct2, THEN conjunct2, THEN conjunct2, THEN conjunct2, THEN conjunct2, THEN conjunct2, THEN conjunct2, THEN conjunct1]
    by (simp add: main_loop_Yield_finding_of passes_def)
  have k_startLine: "main_check [''a.py'' \<mapsto> \<lparr>blocks = [(1, 3)]\<rparr>]
     (report_with_location [[[(''a.py'', 2, 3)]]] [] [] (JObj [(''physicalLocation'', JObj [(''artifactLocation'', JObj [(''uri'', JStr ''a.py'')]), (''region'', JObj [])])]) [] [] []) =
     Inl (KeyError ''startLine'')"
    using malformed_report_raises_when_reached
      [where members = "[(''physicalLocation'', JObj [(''artifactLocation'', JObj [(''uri'', JStr ''a.py'')]), (''region'', JObj [])])]" and commit_files = "[''a.py'' \<mapsto> \<lparr>blocks = [(1, 3)]\<rparr>]" and runs_before = "[[[(''a.py'', 2, 3)]]]" and results_before = "[]" and locations_before = "[]" and locations_after = "[]" and results_after = "[]" and runs_after = "[]" and pl = "[(''artifactLocation'', JObj [(''uri'', JStr ''a.py'')]), (''region'', JObj [])]" and al = "[(''uri'', JStr ''a.py'')]" and uri = "JStr ''a.py''" and rg = "[]", THEN conjunct2, THEN conjunct2, THEN conjunct2, THEN conjunct2, THEN conjunct2, THEN conjunct2, THEN conjunct2, THEN conjunct2, THEN conjunct2, THEN conjunct2, THEN conjunct2, THEN conjunct1]
    by (simp add: main_loop_Yield_finding_of passes_def)
  have k_endLine: "main_check [''a.py'' \<mapsto> \<lparr>blocks = [(1, 3)]\<rparr>]
     (report_with_location [[[(''a.py'', 2, 3)]]] [] [] (JObj [(''physicalLocation'', JObj [(''artifactLocation'', JObj [(''uri'', JStr ''a.py'')]), (''region'', JObj [(''startLine'', JInt 2)])])]) [] [] []) =
     Inl (KeyError ''endLine'')"
    using malformed_report_raises_when_reached
      [where members = "[(''physicalLocation'', JObj [(''artifactLocation'', JObj [(''uri'', JStr ''a.py'')]), (''region'', JObj [(''startLine'', JInt 2)])])]" and commit_files = "[''a.py'' \<mapsto> \<lparr>blocks = [(1, 3)]\<rparr>]" and runs_before = "[[[(''a.py'', 2, 3)]]]" and results_before = "[]" and locations_before = "[]" and locations_after = "[]" and results_after = "[]" and runs_after = "[]" and pl = "[(''artifactLocation'', JObj [(''uri'', JStr ''a.py'')]), (''region'', JObj [(''startLine'', JInt 2)])]" and al = "[(''uri'', JStr ''a.py'')]" and uri = "JStr ''a.py''" and rg = "[(''startLine'', JInt 2)]" and startLine = "JInt 2", THEN conjunct2, THEN conjunct2, THEN conjunct2, THEN conjunct2, THEN conjunct2, THEN conjunct2, THEN conjunct2, THEN conjunct2, THEN conjunct2, THEN conjunct2, THEN conjunct2, THEN conjunct2]
    by (simp add: main_loop_Yield_finding_of passes_def)
  have k_unreached: "main_check Map.empty (report_with_location [[[(''a.py'', 2, 3)]]] [] [] (JObj []) [] [] []) = Inr False"
    using malformed_report_raises_when_reached
      [where members = "[]" and commit_files = "Map.empty" and runs_before = "[[[(''a.py'', 2, 3)]]]" and results_before = "[]" and locations_before = "[]" and locations_after = "[]" and results_after = "[]" and runs_after = "[]", THEN conjunct2, THEN conjunct2, THEN conjunct2, THEN conjunct2, THEN conjunct2, THEN conjunct2, THEN conjunct2, THEN conjunct1]
    by (simp add: main_loop_Yield_finding_of passes_def)
  have no_runs: "map_of [] ''runs'' = (None :: json option)" by simp
  have gen: "snyk_results (report_json [run_json [result_json [location_json (''a.py'', 2, 3), JObj []]]]) =
     yields [finding_of (''a.py'', 2, 3)] (Raise (KeyError ''physicalLocation''))"
    by code_simp
  have pass: "main_loop [''a.py'' \<mapsto> \<lparr>blocks = [(1, 3)]\<rparr>] (yields [finding_of (''a.py'', 2, 3)] Stop) = Inr True"
    by (simp add: main_loop_Yield_finding_of passes_def)
  have fail: "main_loop Map.empty (yields [finding_of (''a.py'', 2, 3)] Stop) = Inr False"
    by (simp add: main_loop_Yield_finding_of passes_def)
  have reached: "main_check [''a.py'' \<mapsto> \<lparr>blocks = [(1, 3)]\<rparr>]
     (report_json [run_json [result_json [location_json (''a.py'', 2, 3), JObj []]]]) =
     Inl (KeyError ''physicalLocation'')"
    using malformed_report_raises_when_reached
      [where commit_files = "[''a.py'' \<mapsto> \<lparr>blocks = [(1, 3)]\<rparr>]" and snyk_report = "report_json [run_json [result_json [location_json (''a.py'', 2, 3), JObj []]]]"
        and fs = "[finding_of (''a.py'', 2, 3)]" and e = "KeyError ''physicalLocation''", THEN conjunct2, THEN conjunct1]
      gen pass
    by simp
  have skipped: "main_check Map.empty
     (report_json [run_json [result_json [location_json (''a.py'', 2, 3), JObj []]]]) = Inr False"
    using malformed_report_raises_when_reached
      [where commit_files = "Map.empty" and snyk_report = "report_json [run_json [result_json [location_json (''a.py'', 2, 3), JObj []]]]"
        and fs = "[finding_of (''a.py'', 2, 3)]" and e = "KeyError ''physicalLocation''", THEN conjunct2, THEN conjunct2, THEN conjunct1]
      gen fail
    by simp
  have one_result: "main_check [''a.py'' \<mapsto> \<lparr>blocks = [(1, 3)]\<rparr>]
     (report_json [run_json [result_json
        (map location_json [(''a.py'', 2, 3)] @ JObj [] # [location_json (''b.py'', 1, 1)])]]) =
     Inl (KeyError ''physicalLocation'')"
    using malformed_report_raises_when_reached
      [where commit_files = "[''a.py'' \<mapsto> \<lparr>blocks = [(1, 3)]\<rparr>]" and members = "[]" and good = "[(''a.py'', 2, 3)]"
        and rest = "[location_json (''b.py'', 1, 1)]", THEN conjunct2, THEN conjunct2, THEN conjunct2, THEN conjunct1]
    by simp
  show ?thesis
    using no_runs k_runs k_results k_locations k_physicalLocation k_artifactLocation k_uri k_region k_startLine k_endLine k_unreached gen pass fail reached skipped one_result
    by (intro conjI)
qed

text \<open>
  C7 as stated fails for a location without \<^verbatim>\<open>physicalLocation\<close> that comes after a
  finding that fails: the check returns false and the malformed location is never looked at.
\<close>

theorem malformed_location_unreached_counterexample:
  "location_finding (JObj []) = Inl (KeyError ''physicalLocation'') \<and>
   main_check Map.empty
     (report_json [run_json [result_json [location_json (''a.py'', 1, 2), JObj []]]]) =
     Inr False"
  by code_simp

end
